theory Spec2Isabelle
  imports Main "HOL-Library.Sublist"
begin

section \<open>The command line front end of the variant\_calling pipeline\<close>

text \<open>
  The repository is one file, \<^verbatim>\<open>sequana_pipelines/variant_calling/main.py\<close>: the class
  \<^verbatim>\<open>Options\<close>, an \<^verbatim>\<open>argparse.ArgumentParser\<close> with five options of its own and two
  delegated option groups, and the function \<^verbatim>\<open>main\<close>, which parses the arguments, lets a
  \<^verbatim>\<open>PipelineManager\<close> stage the working directory, patches two fields of the staged
  configuration and lets the manager finish.

  The embedding follows the control flow of \<^verbatim>\<open>main\<close> statement by statement. What the
  standard library does on the way (\<^verbatim>\<open>ArgumentParser.parse_args\<close>, \<^verbatim>\<open>int\<close>,
  \<^verbatim>\<open>os.path.abspath\<close>) is written out as functions, after \<^verbatim>\<open>argparse.py\<close> and
  \<^verbatim>\<open>posixpath.py\<close> of CPython 3.11; what \<^verbatim>\<open>sequana.pipelines_common\<close> does (the two
  option groups, the manager) is a parameter, since that package is not part of the
  repository. Argument strings are taken as ASCII strings.
\<close>

subsection \<open>Python values and the ways a run can stop\<close>

datatype pyval = PNone | PBool bool | PInt int | PStr string | PList "pyval list"

text \<open>An \<^verbatim>\<open>argparse.Namespace\<close>: attribute names with their values, in the order set.\<close>

type_synonym namespace = "(string \<times> pyval) list"

fun setattr :: "('k \<times> 'v) list \<Rightarrow> 'k \<Rightarrow> 'v \<Rightarrow> ('k \<times> 'v) list" where
  "setattr [] k v = [(k, v)]"
| "setattr ((k', v') # kvs) k v = (if k' = k then (k, v) # kvs else (k', v') # setattr kvs k v)"

text \<open>
  What \<^verbatim>\<open>ArgumentParser.error\<close> is called with. Each constructor is one message of
  \<^verbatim>\<open>argparse.py\<close>; its first string names the action (\<^verbatim>\<open>_get_action_name\<close>) where
  the message has one.
\<close>

datatype argparse_message =
    RequiredArguments "string list"
  | UnrecognizedArguments "string list"
  | AmbiguousOption string "string list"
  | ExpectedOneArgument string
  | IgnoredExplicitArgument string string
  | InvalidValue string string
  | InvalidChoice string pyval
  | UnexpectedOptionString string

datatype printed = HelpText | UsageError argparse_message

datatype exn =
    AttributeError string
  | TypeError
  | IndexError
  | ConflictingOptionStrings "string list"
  | CollaboratorError string

datatype failure = SystemExit int printed | Raised exn

text \<open>
  \<^verbatim>\<open>error\<close> prints the usage and the message to stderr and calls \<^verbatim>\<open>exit(2, ...)\<close>;
  \<^verbatim>\<open>_HelpAction\<close> prints the help and calls \<^verbatim>\<open>exit()\<close>, whose status defaults to 0.
\<close>

definition parser_error :: "argparse_message \<Rightarrow> failure" where
  "parser_error m = SystemExit 2 (UsageError m)"

definition help_exit :: failure where
  "help_exit = SystemExit 0 HelpText"

subsection \<open>Actions and the parser\<close>

text \<open>
  The action classes that occur: \<^verbatim>\<open>_StoreAction\<close> with \<^verbatim>\<open>nargs=None\<close> (one argument),
  \<^verbatim>\<open>_StoreConstAction\<close> (which \<^verbatim>\<open>store_true\<close> and \<^verbatim>\<open>store_false\<close> instantiate, no
  argument) and \<^verbatim>\<open>_HelpAction\<close> (no argument). \<^verbatim>\<open>type\<close> is \<^verbatim>\<open>None\<close> (the string
  itself) or \<^verbatim>\<open>int\<close>. A default of \<open>None\<close> stands for \<^verbatim>\<open>argparse.SUPPRESS\<close>.
\<close>

datatype kind = Store | StoreConst pyval | Help

datatype conversion = AsString | AsInt

record action =
  option_strings :: "string list"
  dest :: string
  kind :: kind
  default_value :: "pyval option"
  conv :: conversion
  choices :: "pyval list option"
  required :: bool

type_synonym parser = "action list"

definition SUPPRESS :: string where
  "SUPPRESS = ''==SUPPRESS==''"

text \<open>\<^verbatim>\<open>_option_string_actions\<close>, in insertion order.\<close>

definition option_string_actions :: "parser \<Rightarrow> (string \<times> action) list" where
  "option_string_actions p = concat (map (\<lambda>a. map (\<lambda>s. (s, a)) (option_strings a)) p)"

text \<open>
  \<^verbatim>\<open>_add_action\<close> with the default conflict handler: an option string that is already
  registered raises \<^verbatim>\<open>ArgumentError\<close>.
\<close>

definition add_action :: "parser \<Rightarrow> action \<Rightarrow> exn + parser" where
  "add_action p a =
     (let confl = filter (\<lambda>s. s \<in> fst ` set (option_string_actions p)) (option_strings a)
      in if confl \<noteq> [] then Inl (ConflictingOptionStrings confl) else Inr (p @ [a]))"

fun add_actions :: "parser \<Rightarrow> action list \<Rightarrow> exn + parser" where
  "add_actions p [] = Inr p"
| "add_actions p (a # as) =
     (case add_action p a of Inl e \<Rightarrow> Inl e | Inr p' \<Rightarrow> add_actions p' as)"

text \<open>The \<^verbatim>\<open>-h/--help\<close> action that \<^verbatim>\<open>ArgumentParser.__init__\<close> adds (\<^verbatim>\<open>add_help=True\<close>).\<close>

definition help_action :: action where
  "help_action = \<lparr>option_strings = [''-h'', ''--help''], dest = ''help'', kind = Help,
     default_value = None, conv = AsString, choices = None, required = False\<rparr>"

text \<open>The five \<^verbatim>\<open>add_argument\<close> calls of \<^verbatim>\<open>Options.__init__\<close>, lines 42 to 72.\<close>

definition run_mode_argument :: action where
  "run_mode_argument = \<lparr>option_strings = [''--run-mode''], dest = ''run_mode'', kind = Store,
     default_value = Some PNone, conv = AsString,
     choices = Some [PStr ''local'', PStr ''slurm''], required = True\<rparr>"

definition outdir_argument :: action where
  "outdir_argument = \<lparr>option_strings = [''--output-directory''], dest = ''outdir'', kind = Store,
     default_value = Some (PStr ''fastqc''), conv = AsString, choices = None, required = False\<rparr>"

definition fastq_directory_argument :: action where
  "fastq_directory_argument = \<lparr>option_strings = [''--fastq-directory''],
     dest = ''fastq_directory'', kind = Store, default_value = Some (PStr ''.''),
     conv = AsString, choices = None, required = True\<rparr>"

definition input_pattern_argument :: action where
  "input_pattern_argument = \<lparr>option_strings = [''--input-pattern''], dest = ''input_pattern'',
     kind = Store, default_value = Some (PStr ''*fastq.gz''), conv = AsString, choices = None,
     required = False\<rparr>"

definition threads_argument :: action where
  "threads_argument = \<lparr>option_strings = [''--threads''], dest = ''threads'', kind = Store,
     default_value = Some (PInt 4), conv = AsInt, choices = None, required = False\<rparr>"

definition own_arguments :: "action list" where
  "own_arguments = [run_mode_argument, outdir_argument, fastq_directory_argument,
     input_pattern_argument, threads_argument]"

text \<open>
  \<^verbatim>\<open>Options.__init__\<close>: the base class adds the help action, then
  \<^verbatim>\<open>SlurmOptions().add_options(self)\<close> and \<^verbatim>\<open>SnakemakeOptions().add_options(self)\<close> add
  what they add (the two parameters), then the five arguments above.
\<close>

definition Options :: "action list \<Rightarrow> action list \<Rightarrow> exn + parser" where
  "Options slurm_options snakemake_options =
     add_actions [] (help_action # slurm_options @ snakemake_options @ own_arguments)"

subsection \<open>Strings\<close>

text \<open>\<^verbatim>\<open>sep.join(xs)\<close>, \<^verbatim>\<open>s.split(sep)\<close> for a one-character separator, \<^verbatim>\<open>s.partition('=')\<close>.\<close>

fun join :: "string \<Rightarrow> string list \<Rightarrow> string" where
  "join sep [] = []"
| "join sep [x] = x"
| "join sep (x # y # ys) = x @ sep @ join sep (y # ys)"

fun split :: "char \<Rightarrow> string \<Rightarrow> string list" where
  "split sep [] = [[]]"
| "split sep (c # cs) =
     (if c = sep then [] # split sep cs
      else (case split sep cs of [] \<Rightarrow> [[c]] | w # ws \<Rightarrow> (c # w) # ws))"

definition partition_eq :: "string \<Rightarrow> string \<times> string \<times> string" where
  "partition_eq s =
     (if CHR ''='' \<in> set s
      then (takeWhile (\<lambda>c. c \<noteq> CHR ''='') s, ''='', tl (dropWhile (\<lambda>c. c \<noteq> CHR ''='') s))
      else (s, [], []))"

definition is_digit :: "char \<Rightarrow> bool" where
  "is_digit c \<longleftrightarrow> c \<in> set ''0123456789''"

definition get_action_name :: "action \<Rightarrow> string" where
  "get_action_name a = join ''/'' (option_strings a)"

subsection \<open>Which argument strings are options\<close>

text \<open>
  \<^verbatim>\<open>_negative_number_matcher\<close> is the regular expression \<^verbatim>\<open>^-\d+$|^-\d*\.\d+$\<close>; its
  \<^verbatim>\<open>$\<close> also matches before a newline that ends the string.
\<close>

definition negative_number_body :: "string \<Rightarrow> bool" where
  "negative_number_body s =
     (case s of
        c # ds \<Rightarrow>
          c = CHR ''-'' \<and>
          ((ds \<noteq> [] \<and> list_all is_digit ds) \<or>
           (case dropWhile is_digit ds of
              d # fs \<Rightarrow> d = CHR ''.'' \<and> fs \<noteq> [] \<and> list_all is_digit fs
            | [] \<Rightarrow> False))
      | [] \<Rightarrow> False)"

definition negative_number_matcher :: "string \<Rightarrow> bool" where
  "negative_number_matcher s \<longleftrightarrow>
     negative_number_body s \<or> (s \<noteq> [] \<and> last s = CHR 0x0A \<and> negative_number_body (butlast s))"

definition has_negative_number_optionals :: "parser \<Rightarrow> bool" where
  "has_negative_number_optionals p \<longleftrightarrow>
     list_ex (\<lambda>(s, a). negative_number_matcher s) (option_string_actions p)"

text \<open>
  An option tuple is \<^verbatim>\<open>(action, option_string, sep, explicit_arg)\<close>; each of the action,
  \<^verbatim>\<open>sep\<close> and \<^verbatim>\<open>explicit_arg\<close> can be \<^verbatim>\<open>None\<close>.
\<close>

type_synonym option_tuple = "action option \<times> string \<times> string option \<times> string option"

text \<open>
  \<^verbatim>\<open>_get_option_tuples\<close>, with \<^verbatim>\<open>prefix_chars = '-'\<close> and \<^verbatim>\<open>allow_abbrev = True\<close>: a
  string that starts with two dashes matches every option string it abbreviates; a string with
  one dash matches the short option of its first two characters (the rest is its argument) and
  every option string it abbreviates.
\<close>

definition get_option_tuples :: "parser \<Rightarrow> string \<Rightarrow> failure + option_tuple list" where
  "get_option_tuples p option_string =
     (case option_string of
        c0 # c1 # _ \<Rightarrow>
          if c0 = CHR ''-'' \<and> c1 = CHR ''-'' then
            (case partition_eq option_string of
               (option_prefix, sep, explicit_arg) \<Rightarrow>
                 Inr (map (\<lambda>(s, a). (Some a, s,
                            if sep = [] then None else Some sep,
                            if sep = [] then None else Some explicit_arg))
                      (filter (\<lambda>(s, a). prefix option_prefix s) (option_string_actions p))))
          else if c0 = CHR ''-'' \<and> c1 \<noteq> CHR ''-'' then
            Inr (concat (map (\<lambda>(s, a).
                   if s = take 2 option_string
                   then [(Some a, s, Some [], Some (drop 2 option_string))]
                   else if prefix option_string s then [(Some a, s, None, None)]
                   else [])
                 (option_string_actions p)))
          else Inl (parser_error (UnexpectedOptionString option_string))
      | _ \<Rightarrow> Inl (Raised IndexError))"

text \<open>
  \<^verbatim>\<open>_parse_optional\<close>: \<open>Inr None\<close> is a positional argument, \<open>Inr (Some t)\<close> an option
  (with no action when no option of the parser matches); an ambiguous abbreviation calls
  \<^verbatim>\<open>error\<close>.
\<close>

definition parse_optional :: "parser \<Rightarrow> string \<Rightarrow> failure + option_tuple option" where
  "parse_optional p arg_string =
     (if arg_string = [] then Inr None
      else if hd arg_string \<noteq> CHR ''-'' then Inr None
      else (case map_of (option_string_actions p) arg_string of
        Some a \<Rightarrow> Inr (Some (Some a, arg_string, None, None))
      | None \<Rightarrow>
          if length arg_string = 1 then Inr None
          else (case partition_eq arg_string of (option_string, sep, explicit_arg) \<Rightarrow>
            (case (if sep \<noteq> [] then map_of (option_string_actions p) option_string else None) of
               Some a \<Rightarrow> Inr (Some (Some a, option_string, Some sep, Some explicit_arg))
             | None \<Rightarrow>
                 (case get_option_tuples p arg_string of
                    Inl e \<Rightarrow> Inl e
                  | Inr option_tuples \<Rightarrow>
                      if length option_tuples > 1
                      then Inl (parser_error (AmbiguousOption arg_string
                                  (map (\<lambda>(a, s, sep, e). s) option_tuples)))
                      else if length option_tuples = 1 then Inr (Some (hd option_tuples))
                      else if negative_number_matcher arg_string
                              \<and> \<not> has_negative_number_optionals p then Inr None
                      else if CHR '' '' \<in> set arg_string then Inr None
                      else Inr (Some (None, arg_string, None, None)))))))"

text \<open>
  The first loop of \<^verbatim>\<open>_parse_known_args\<close> builds the pattern of the argument strings:
  \<^verbatim>\<open>O\<close> with its option tuple, \<^verbatim>\<open>A\<close>, and \<^verbatim>\<open>-\<close> for \<^verbatim>\<open>--\<close>, after which every
  string is \<^verbatim>\<open>A\<close>.
\<close>

datatype token = Arg | DashDash | Opt option_tuple

fun arg_strings_pattern :: "parser \<Rightarrow> string list \<Rightarrow> failure + token list" where
  "arg_strings_pattern p [] = Inr []"
| "arg_strings_pattern p (s # ss) =
     (if s = ''--'' then Inr (DashDash # map (\<lambda>_. Arg) ss)
      else (case parse_optional p s of
        Inl e \<Rightarrow> Inl e
      | Inr t \<Rightarrow>
          (case arg_strings_pattern p ss of
             Inl e \<Rightarrow> Inl e
           | Inr ts \<Rightarrow> Inr ((case t of None \<Rightarrow> Arg | Some tup \<Rightarrow> Opt tup) # ts))))"

subsection \<open>Converting and storing an argument\<close>

text \<open>
  \<^verbatim>\<open>int(s)\<close> on an ASCII string: blanks around, one optional sign, decimal digits in groups
  separated by single underscores, and at most 4300 digits (the default of
  \<^verbatim>\<open>sys.set_int_max_str_digits\<close>). \<open>None\<close> is \<^verbatim>\<open>ValueError\<close>.
\<close>

definition is_space :: "char \<Rightarrow> bool" where
  "is_space c \<longleftrightarrow> c \<in> set [CHR 0x09, CHR 0x0A, CHR 0x0B, CHR 0x0C, CHR 0x0D, CHR 0x20]"

definition strip :: "string \<Rightarrow> string" where
  "strip s = rev (dropWhile is_space (rev (dropWhile is_space s)))"

definition digit_value :: "char \<Rightarrow> int" where
  "digit_value c =
     (case map_of [(CHR ''0'', 0), (CHR ''1'', 1), (CHR ''2'', 2), (CHR ''3'', 3), (CHR ''4'', 4),
                   (CHR ''5'', 5), (CHR ''6'', 6), (CHR ''7'', 7), (CHR ''8'', 8), (CHR ''9'', 9)] c of
        Some d \<Rightarrow> d | None \<Rightarrow> 0)"

definition decimal :: "string \<Rightarrow> int" where
  "decimal ds = foldl (\<lambda>n c. 10 * n + digit_value c) 0 ds"

definition py_int :: "string \<Rightarrow> int option" where
  "py_int s =
     (let t = strip s;
          negative = (t \<noteq> [] \<and> hd t = CHR ''-'');
          body = (if t \<noteq> [] \<and> (hd t = CHR ''-'' \<or> hd t = CHR ''+'') then tl t else t);
          groups = split CHR ''_'' body
      in if list_all (\<lambda>g. g \<noteq> [] \<and> list_all is_digit g) groups
            \<and> length (concat groups) \<le> 4300
         then Some ((if negative then - 1 else 1) * decimal (concat groups))
         else None)"

text \<open>
  \<^verbatim>\<open>_get_value\<close> applies the type function and \<^verbatim>\<open>_check_value\<close> tests the choices. Both
  raise \<^verbatim>\<open>ArgumentError\<close>, which \<^verbatim>\<open>parse_known_args\<close> catches and hands to
  \<^verbatim>\<open>error\<close> (\<^verbatim>\<open>exit_on_error\<close> is true), so the model calls \<open>parser_error\<close> at once.
\<close>

definition get_value :: "action \<Rightarrow> string \<Rightarrow> failure + pyval" where
  "get_value a arg_string =
     (case conv a of
        AsString \<Rightarrow> Inr (PStr arg_string)
      | AsInt \<Rightarrow>
          (case py_int arg_string of
             Some n \<Rightarrow> Inr (PInt n)
           | None \<Rightarrow> Inl (parser_error (InvalidValue (get_action_name a) arg_string))))"

definition check_value :: "action \<Rightarrow> pyval \<Rightarrow> failure + unit" where
  "check_value a v =
     (case choices a of
        Some cs \<Rightarrow>
          if v \<notin> set cs then Inl (parser_error (InvalidChoice (get_action_name a) v))
          else Inr ()
      | None \<Rightarrow> Inr ())"

fun get_values_list :: "action \<Rightarrow> string list \<Rightarrow> failure + pyval list" where
  "get_values_list a [] = Inr []"
| "get_values_list a (s # ss) =
     (case get_value a s of
        Inl e \<Rightarrow> Inl e
      | Inr v \<Rightarrow> (case get_values_list a ss of Inl e \<Rightarrow> Inl e | Inr vs \<Rightarrow> Inr (v # vs)))"

fun check_values_list :: "action \<Rightarrow> pyval list \<Rightarrow> failure + unit" where
  "check_values_list a [] = Inr ()"
| "check_values_list a (v # vs) =
     (case check_value a v of Inl e \<Rightarrow> Inl e | Inr _ \<Rightarrow> check_values_list a vs)"

text \<open>
  \<^verbatim>\<open>_get_values\<close>: one string for an action with \<^verbatim>\<open>nargs=None\<close> gives one converted and
  checked value; otherwise (an action without arguments gets the empty list) the list of
  converted and checked values.
\<close>

definition get_values :: "action \<Rightarrow> string list \<Rightarrow> failure + pyval" where
  "get_values a arg_strings =
     (if length arg_strings = 1 \<and> kind a = Store then
        (case get_value a (hd arg_strings) of
           Inl e \<Rightarrow> Inl e
         | Inr v \<Rightarrow> (case check_value a v of Inl e \<Rightarrow> Inl e | Inr _ \<Rightarrow> Inr v))
      else
        (case get_values_list a arg_strings of
           Inl e \<Rightarrow> Inl e
         | Inr vs \<Rightarrow> (case check_values_list a vs of Inl e \<Rightarrow> Inl e | Inr _ \<Rightarrow> Inr (PList vs))))"

text \<open>The state of \<^verbatim>\<open>_parse_known_args\<close>: the namespace, \<^verbatim>\<open>seen_actions\<close>, \<^verbatim>\<open>extras\<close>.\<close>

record parse_state =
  namespace :: namespace
  seen_actions :: "action list"
  extras :: "string list"

text \<open>
  \<^verbatim>\<open>take_action\<close>: the action is marked as seen, its arguments are converted, and the action
  is called: \<^verbatim>\<open>_StoreAction\<close> and \<^verbatim>\<open>_StoreConstAction\<close> set the attribute \<^verbatim>\<open>dest\<close>,
  \<^verbatim>\<open>_HelpAction\<close> prints the help and exits.
\<close>

definition take_action :: "action \<Rightarrow> string list \<Rightarrow> parse_state \<Rightarrow> failure + parse_state" where
  "take_action a argument_strings st =
     (case get_values a argument_strings of
        Inl e \<Rightarrow> Inl e
      | Inr argument_values \<Rightarrow>
          (case kind a of
             Store \<Rightarrow>
               Inr (st\<lparr>seen_actions := a # seen_actions st,
                        namespace := setattr (namespace st) (dest a) argument_values\<rparr>)
           | StoreConst c \<Rightarrow>
               Inr (st\<lparr>seen_actions := a # seen_actions st,
                        namespace := setattr (namespace st) (dest a) c\<rparr>)
           | Help \<Rightarrow> Inl help_exit))"

type_synonym action_tuple = "action \<times> string list \<times> string"

fun take_actions :: "action_tuple list \<Rightarrow> parse_state \<Rightarrow> failure + parse_state" where
  "take_actions [] st = Inr st"
| "take_actions ((a, args, option_string) # ts) st =
     (case take_action a args st of Inl e \<Rightarrow> Inl e | Inr st' \<Rightarrow> take_actions ts st')"

subsection \<open>The parsing loop\<close>

text \<open>
  \<^verbatim>\<open>_match_argument\<close> for an option: an action with \<^verbatim>\<open>nargs=None\<close> has the pattern
  \<^verbatim>\<open>(A)\<close>, an action without arguments the pattern \<^verbatim>\<open>()\<close>.
\<close>

definition nargs :: "action \<Rightarrow> nat" where
  "nargs a = (case kind a of Store \<Rightarrow> 1 | _ \<Rightarrow> 0)"

text \<open>
  The \<^verbatim>\<open>while True\<close> loop of \<^verbatim>\<open>consume_optional\<close>, for an option tuple with an action.
  \<open>following\<close> is what comes after the option string. The result is the action tuples to
  take, what goes to \<^verbatim>\<open>extras\<close>, and how many of the following strings are used.
\<close>

function match_optional ::
  "parser \<Rightarrow> (string \<times> token) list \<Rightarrow> action \<Rightarrow> string \<Rightarrow> string option \<Rightarrow> string option
     \<Rightarrow> action_tuple list \<Rightarrow> failure + (action_tuple list \<times> string list \<times> nat)" where
  "match_optional p following a option_string sep explicit_arg action_tuples =
     (case explicit_arg of
        Some e \<Rightarrow>
          if nargs a = 0 \<and> length option_string < 2 then Inl (Raised IndexError)
          else if nargs a = 0 \<and> option_string ! 1 \<noteq> CHR ''-'' \<and> e \<noteq> [] then
            if (sep \<noteq> None \<and> sep \<noteq> Some []) \<or> hd e = CHR ''-''
            then Inl (parser_error (IgnoredExplicitArgument (get_action_name a) e))
            else
              (case map_of (option_string_actions p) [hd option_string, hd e] of
                 Some a' \<Rightarrow>
                   if tl e = [] then
                     match_optional p following a' [hd option_string, hd e] None None
                       (action_tuples @ [(a, [], option_string)])
                   else if hd (tl e) = CHR ''='' then
                     match_optional p following a' [hd option_string, hd e] (Some ''='')
                       (Some (tl (tl e))) (action_tuples @ [(a, [], option_string)])
                   else
                     match_optional p following a' [hd option_string, hd e] (Some [])
                       (Some (tl e)) (action_tuples @ [(a, [], option_string)])
               | None \<Rightarrow>
                   Inr (action_tuples @ [(a, [], option_string)], [hd option_string # e], 0))
          else if nargs a = 1 then Inr (action_tuples @ [(a, [e], option_string)], [], 0)
          else Inl (parser_error (IgnoredExplicitArgument (get_action_name a) e))
      | None \<Rightarrow>
          if nargs a = 0 then Inr (action_tuples @ [(a, [], option_string)], [], 0)
          else
            (case following of
               (s, Arg) # _ \<Rightarrow> Inr (action_tuples @ [(a, [s], option_string)], [], 1)
             | _ \<Rightarrow> Inl (parser_error (ExpectedOneArgument (get_action_name a)))))"
  by pat_completeness auto
termination
  by (relation "measure (\<lambda>(p, following, a, option_string, sep, explicit_arg, action_tuples).
        case explicit_arg of None \<Rightarrow> 0 | Some e \<Rightarrow> Suc (length e))")
     (auto simp: neq_Nil_conv)

declare match_optional.simps [simp del]

text \<open>
  \<^verbatim>\<open>consume_optional\<close>: an option string that no option matches goes to \<^verbatim>\<open>extras\<close>;
  otherwise the action tuples are taken in order.
\<close>

definition consume_optional ::
  "parser \<Rightarrow> string \<Rightarrow> option_tuple \<Rightarrow> (string \<times> token) list \<Rightarrow> parse_state
     \<Rightarrow> failure + (parse_state \<times> nat)" where
  "consume_optional p arg_string tup following st =
     (case tup of
        (None, option_string, sep, explicit_arg) \<Rightarrow>
          Inr (st\<lparr>extras := extras st @ [arg_string]\<rparr>, 0)
      | (Some a, option_string, sep, explicit_arg) \<Rightarrow>
          (case match_optional p following a option_string sep explicit_arg [] of
             Inl e \<Rightarrow> Inl e
           | Inr (action_tuples, unmatched, n) \<Rightarrow>
               (case take_actions action_tuples (st\<lparr>extras := extras st @ unmatched\<rparr>) of
                  Inl e \<Rightarrow> Inl e
                | Inr st' \<Rightarrow> Inr (st', n))))"

text \<open>
  The main loop. The parser has no positional argument, so \<^verbatim>\<open>consume_positionals\<close> matches
  nothing and every string that is not an option or the argument of one goes to
  \<^verbatim>\<open>extras\<close>, in order.
\<close>

fun consume :: "parser \<Rightarrow> (string \<times> token) list \<Rightarrow> parse_state \<Rightarrow> failure + parse_state" where
  "consume p [] st = Inr st"
| "consume p ((s, Opt tup) # following) st =
     (case consume_optional p s tup following st of
        Inl e \<Rightarrow> Inl e
      | Inr (st', n) \<Rightarrow> consume p (drop n following) st')"
| "consume p ((s, Arg) # following) st = consume p following (st\<lparr>extras := extras st @ [s]\<rparr>)"
| "consume p ((s, DashDash) # following) st =
     consume p following (st\<lparr>extras := extras st @ [s]\<rparr>)"

text \<open>
  After the loop, every action that was not seen is either required, and then named in the
  error, or has its default converted when that default is a string and still is the value
  of its attribute (Python compares with \<^verbatim>\<open>is\<close>; the model compares the values).
\<close>

fun check_required ::
  "action list \<Rightarrow> action list \<Rightarrow> namespace \<Rightarrow> string list \<Rightarrow> failure + (namespace \<times> string list)" where
  "check_required [] seen ns required_actions = Inr (ns, required_actions)"
| "check_required (a # as) seen ns required_actions =
     (if a \<notin> set seen then
        if required a then check_required as seen ns (required_actions @ [get_action_name a])
        else
          (case default_value a of
             Some (PStr d) \<Rightarrow>
               if map_of ns (dest a) = Some (PStr d) then
                 (case get_value a d of
                    Inl e \<Rightarrow> Inl e
                  | Inr v \<Rightarrow> check_required as seen (setattr ns (dest a) v) required_actions)
               else check_required as seen ns required_actions
           | _ \<Rightarrow> check_required as seen ns required_actions)
      else check_required as seen ns required_actions)"

text \<open>
  The defaults that \<^verbatim>\<open>parse_known_args\<close> puts into the fresh namespace: for each action in
  order, unless its \<^verbatim>\<open>dest\<close> or its default is \<^verbatim>\<open>SUPPRESS\<close> or the attribute is already
  there.
\<close>

fun add_defaults :: "action list \<Rightarrow> namespace \<Rightarrow> namespace" where
  "add_defaults [] ns = ns"
| "add_defaults (a # as) ns =
     (case default_value a of
        Some d \<Rightarrow>
          if dest a \<noteq> SUPPRESS \<and> map_of ns (dest a) = None
          then add_defaults as (setattr ns (dest a) d)
          else add_defaults as ns
      | None \<Rightarrow> add_defaults as ns)"

definition parse_known_args :: "parser \<Rightarrow> string list \<Rightarrow> failure + (namespace \<times> string list)" where
  "parse_known_args p args =
     (case arg_strings_pattern p args of
        Inl e \<Rightarrow> Inl e
      | Inr pattern \<Rightarrow>
          (case consume p (zip args pattern)
                  \<lparr>namespace = add_defaults p [], seen_actions = [], extras = []\<rparr> of
             Inl e \<Rightarrow> Inl e
           | Inr st \<Rightarrow>
               (case check_required p (seen_actions st) (namespace st) [] of
                  Inl e \<Rightarrow> Inl e
                | Inr (ns, required_actions) \<Rightarrow>
                    if required_actions \<noteq> []
                    then Inl (parser_error (RequiredArguments required_actions))
                    else Inr (ns, extras st))))"

definition parse_args :: "parser \<Rightarrow> string list \<Rightarrow> failure + namespace" where
  "parse_args p args =
     (case parse_known_args p args of
        Inl e \<Rightarrow> Inl e
      | Inr (ns, argv) \<Rightarrow>
          if argv \<noteq> [] then Inl (parser_error (UnrecognizedArguments argv)) else Inr ns)"

subsection \<open>Absolute paths\<close>

text \<open>
  \<^verbatim>\<open>posixpath.join(a, b)\<close>, \<^verbatim>\<open>posixpath.normpath\<close> and \<^verbatim>\<open>posixpath.abspath\<close>. The working
  directory that \<^verbatim>\<open>os.getcwd()\<close> returns is the parameter \<open>cwd\<close>; it is read only for a
  relative path. \<^verbatim>\<open>os.fspath\<close> raises \<^verbatim>\<open>TypeError\<close> on a value that is not a string.
\<close>

definition path_join :: "string \<Rightarrow> string \<Rightarrow> string" where
  "path_join a b =
     (if prefix ''/'' b then b
      else if a = [] \<or> last a = CHR ''/'' then a @ b
      else a @ ''/'' @ b)"

definition normpath_step :: "nat \<Rightarrow> string list \<Rightarrow> string \<Rightarrow> string list" where
  "normpath_step initial_slashes new_comps c =
     (if c = [] \<or> c = ''.'' then new_comps
      else if c \<noteq> ''..'' \<or> (initial_slashes = 0 \<and> new_comps = [])
                \<or> (new_comps \<noteq> [] \<and> last new_comps = ''..'')
           then new_comps @ [c]
      else if new_comps \<noteq> [] then butlast new_comps
      else new_comps)"

definition normpath :: "string \<Rightarrow> string" where
  "normpath path =
     (if path = [] then ''.''
      else
        (let initial_slashes =
               (if prefix ''/'' path
                then (if prefix ''//'' path \<and> \<not> prefix ''///'' path then 2 else 1)
                else 0);
             comps = foldl (normpath_step initial_slashes) [] (split CHR ''/'' path);
             path' = replicate initial_slashes CHR ''/'' @ join ''/'' comps
         in if path' = [] then ''.'' else path'))"

definition abspath :: "string \<Rightarrow> pyval \<Rightarrow> exn + string" where
  "abspath cwd path =
     (case path of
        PStr s \<Rightarrow> Inr (normpath (if prefix ''/'' s then s else path_join cwd s))
      | _ \<Rightarrow> Inl TypeError)"

subsection \<open>The configuration object and the manager\<close>

text \<open>
  \<^verbatim>\<open>manager.config.config\<close> is an object with attributes; an attribute is a plain value or
  such an object again (a section). Reading an attribute that is not there raises
  \<^verbatim>\<open>AttributeError\<close>; setting an attribute of an object adds or replaces it; a plain value
  has no attribute to read or set. A section that is changed is changed inside its parent,
  as the shared Python object is.
\<close>

datatype cfgval = Value pyval | Section "(string \<times> cfgval) list"

type_synonym cfg = "(string \<times> cfgval) list"

definition getattr :: "cfgval \<Rightarrow> string \<Rightarrow> exn + cfgval" where
  "getattr obj name =
     (case obj of
        Section attrs \<Rightarrow>
          (case map_of attrs name of Some v \<Rightarrow> Inr v | None \<Rightarrow> Inl (AttributeError name))
      | Value _ \<Rightarrow> Inl (AttributeError name))"

definition set_attribute :: "cfgval \<Rightarrow> string \<Rightarrow> cfgval \<Rightarrow> exn + cfgval" where
  "set_attribute obj name v =
     (case obj of
        Section attrs \<Rightarrow> Inr (Section (setattr attrs name v))
      | Value _ \<Rightarrow> Inl (AttributeError name))"

text \<open>Reading an attribute of the parsed options, \<^verbatim>\<open>options.name\<close>.\<close>

definition option_attribute :: "namespace \<Rightarrow> string \<Rightarrow> exn + pyval" where
  "option_attribute options name =
     (case map_of options name of Some v \<Rightarrow> Inr v | None \<Rightarrow> Inl (AttributeError name))"

text \<open>The field at a path of attribute names, for stating what a step writes and leaves.\<close>

fun field :: "cfgval \<Rightarrow> string list \<Rightarrow> cfgval option" where
  "field obj [] = Some obj"
| "field obj (name # names) =
     (case obj of
        Section attrs \<Rightarrow>
          (case map_of attrs name of Some v \<Rightarrow> field v names | None \<Rightarrow> None)
      | Value _ \<Rightarrow> None)"

text \<open>
  What \<^verbatim>\<open>sequana.pipelines_common\<close> provides: the options that the two groups add, and
  the manager. A manager object holds the configuration object; the rest of it, and the
  files and directories it works on (the world \<open>'w\<close>), are opaque. Each of its three
  operations may fail and may change the world.
\<close>

record 'm manager =
  config :: cfg
  internals :: 'm

record ('m, 'w) pipelines_common =
  slurm_options :: "action list"
  snakemake_options :: "action list"
  PipelineManager :: "namespace \<Rightarrow> string \<Rightarrow> 'w \<Rightarrow> (failure + 'm manager) \<times> 'w"
  manager_setup :: "'m manager \<Rightarrow> 'w \<Rightarrow> (failure + 'm manager) \<times> 'w"
  manager_teardown :: "'m manager \<Rightarrow> 'w \<Rightarrow> (failure + 'm manager) \<times> 'w"

subsection \<open>The function main\<close>

text \<open>
  The patch step, lines 89 to 91:
  \<^verbatim>\<open>
    cfg = manager.config.config
    cfg.input_directory = os.path.abspath(options.bcl_directory)
    cfg.bcl2fastq.threads = options.threads
  \<close>
  Each assignment is a function from the configuration to the exception it raises, if any,
  and the configuration as it leaves it. The right-hand side is evaluated first.
\<close>

definition assign_input_directory :: "string \<Rightarrow> namespace \<Rightarrow> cfg \<Rightarrow> exn option \<times> cfg" where
  "assign_input_directory cwd options cfg =
     (case option_attribute options ''bcl_directory'' of
        Inl e \<Rightarrow> (Some e, cfg)
      | Inr bcl_directory \<Rightarrow>
          (case abspath cwd bcl_directory of
             Inl e \<Rightarrow> (Some e, cfg)
           | Inr path \<Rightarrow> (None, setattr cfg ''input_directory'' (Value (PStr path)))))"

definition assign_threads :: "namespace \<Rightarrow> cfg \<Rightarrow> exn option \<times> cfg" where
  "assign_threads options cfg =
     (case option_attribute options ''threads'' of
        Inl e \<Rightarrow> (Some e, cfg)
      | Inr threads \<Rightarrow>
          (case getattr (Section cfg) ''bcl2fastq'' of
             Inl e \<Rightarrow> (Some e, cfg)
           | Inr bcl2fastq \<Rightarrow>
               (case set_attribute bcl2fastq ''threads'' (Value threads) of
                  Inl e \<Rightarrow> (Some e, cfg)
                | Inr bcl2fastq' \<Rightarrow> (None, setattr cfg ''bcl2fastq'' bcl2fastq'))))"

definition patch :: "string \<Rightarrow> namespace \<Rightarrow> cfg \<Rightarrow> exn option \<times> cfg" where
  "patch cwd options cfg =
     (case assign_input_directory cwd options cfg of
        (Some e, cfg1) \<Rightarrow> (Some e, cfg1)
      | (None, cfg1) \<Rightarrow> assign_threads options cfg1)"

definition NAME :: string where
  "NAME = ''variant_calling''"

text \<open>
  \<^verbatim>\<open>main(args)\<close>, lines 76 to 93. \<open>sys_argv\<close> is \<^verbatim>\<open>sys.argv\<close>, used when \<open>args\<close> is
  \<^verbatim>\<open>None\<close>. The result is how the run ended (the manager as torn down, or the failure)
  and the world it leaves. An exception is caught nowhere.
\<close>

definition main ::
  "('m, 'w) pipelines_common \<Rightarrow> string list \<Rightarrow> string \<Rightarrow> string list option \<Rightarrow> 'w
     \<Rightarrow> (failure + 'm manager) \<times> 'w" where
  "main lib sys_argv cwd args w =
     (case Options (slurm_options lib) (snakemake_options lib) of
        Inl e \<Rightarrow> (Inl (Raised e), w)
      | Inr parser \<Rightarrow>
     (case parse_args parser (drop 1 (case args of None \<Rightarrow> sys_argv | Some a \<Rightarrow> a)) of
        Inl f \<Rightarrow> (Inl f, w)
      | Inr options \<Rightarrow>
     (case PipelineManager lib options NAME w of
        (Inl f, w1) \<Rightarrow> (Inl f, w1)
      | (Inr manager, w1) \<Rightarrow>
     (case manager_setup lib manager w1 of
        (Inl f, w2) \<Rightarrow> (Inl f, w2)
      | (Inr staged, w2) \<Rightarrow>
     (case patch cwd options (config staged) of
        (Some e, cfg) \<Rightarrow> (Inl (Raised e), w2)
      | (None, cfg) \<Rightarrow> manager_teardown lib (staged\<lparr>config := cfg\<rparr>) w2)))))"

subsection \<open>What an argument list supplies\<close>

text \<open>
  The notions the claims are stated with. An argument list supplies the value \<open>v\<close> to an
  action when one of its strings selects the action (by its option string, an abbreviation
  of it, or the form \<^verbatim>\<open>--option=v\<close>) and \<open>v\<close> is the explicit argument or the argument
  string that follows. A list that supplies nothing to an action omits its flag.
\<close>

fun supplied_here :: "action \<Rightarrow> token \<Rightarrow> (string \<times> token) list \<Rightarrow> string option" where
  "supplied_here A (Opt (Some a, os, sep, Some e)) following = (if a = A then Some e else None)"
| "supplied_here A (Opt (Some a, os, sep, None)) ((s, Arg) # following) =
     (if a = A then Some s else None)"
| "supplied_here A tok following = None"

fun supplied_values :: "action \<Rightarrow> (string \<times> token) list \<Rightarrow> string list" where
  "supplied_values A [] = []"
| "supplied_values A ((s, tok) # following) =
     (case supplied_here A tok following of Some v \<Rightarrow> [v] | None \<Rightarrow> [])
     @ supplied_values A following"

definition supplied :: "parser \<Rightarrow> string list \<Rightarrow> action \<Rightarrow> string list" where
  "supplied p args A =
     (case arg_strings_pattern p args of
        Inr pattern \<Rightarrow> supplied_values A (zip args pattern)
      | Inl _ \<Rightarrow> [])"

text \<open>
  The actions an option string can trigger: the action it selects and, for a string of short
  options such as \<^verbatim>\<open>-fh\<close>, the short options of the characters after the first. An
  argument list asks for help when one of its option strings can trigger a help action.
\<close>

definition cluster :: "parser \<Rightarrow> string \<Rightarrow> string \<Rightarrow> action list" where
  "cluster p option_string explicit_arg =
     List.map_filter (\<lambda>c. map_of (option_string_actions p) [hd option_string, c]) explicit_arg"

fun mentioned :: "parser \<Rightarrow> token \<Rightarrow> action list" where
  "mentioned p (Opt (Some a, option_string, sep, Some e)) = a # cluster p option_string e"
| "mentioned p (Opt (Some a, option_string, sep, None)) = [a]"
| "mentioned p tok = []"

definition asks_help :: "parser \<Rightarrow> string list \<Rightarrow> bool" where
  "asks_help p args =
     (case arg_strings_pattern p args of
        Inr pattern \<Rightarrow> list_ex (\<lambda>tok. list_ex (\<lambda>a. kind a = Help) (mentioned p tok)) pattern
      | Inl _ \<Rightarrow> False)"

text \<open>
  What is assumed of the two delegated groups: they add options (no positional argument),
  each option string has a dash and at least one more character, and none of them stores
  into an attribute of the five options of this file.
\<close>

definition delegated_ok :: "action list \<Rightarrow> bool" where
  "delegated_ok groups \<longleftrightarrow>
     (\<forall>a \<in> set groups.
        option_strings a \<noteq> [] \<and>
        (\<forall>s \<in> set (option_strings a). 2 \<le> length s \<and> hd s = CHR ''-'') \<and>
        dest a \<notin> set (map dest own_arguments))"

text \<open>Two notions for the proofs: a token that names an option of the parser, and a
  well-formed result of \<open>match_optional\<close>.\<close>

fun token_ok :: "parser \<Rightarrow> token \<Rightarrow> bool" where
  "token_ok p (Opt (Some a, os, sep, e)) = ((os, a) \<in> set (option_string_actions p))"
| "token_ok p tok = True"

definition match_ok ::
  "parser \<Rightarrow> (string \<times> token) list \<Rightarrow> action set
     \<Rightarrow> failure + (action_tuple list \<times> string list \<times> nat) \<Rightarrow> bool" where
  "match_ok p f M r =
     (case r of
        Inl fl \<Rightarrow> (\<exists>m. fl = parser_error m)
      | Inr (tuples, un, n) \<Rightarrow>
          (\<forall>(a, args, os) \<in> set tuples. a \<in> M \<and> length args = nargs a) \<and>
          (n = 0 \<or> (n = 1 \<and> (\<exists>s r. f = (s, Arg) # r))))"

subsection \<open>A sample instance\<close>

text \<open>
  An instance of the parameters, for the closed examples below: two option groups, a
  template configuration, and a manager whose world is the list of the paths it has written.
\<close>

definition example_slurm :: "action list" where
  "example_slurm =
     [\<lparr>option_strings = [''--slurm-cores-per-job''], dest = ''slurm_cores_per_job'', kind = Store,
        default_value = Some (PInt 4), conv = AsString, choices = None, required = False\<rparr>,
      \<lparr>option_strings = [''--slurm-queue''], dest = ''slurm_queue'', kind = Store,
        default_value = Some (PStr ''common''), conv = AsString, choices = None, required = False\<rparr>,
      \<lparr>option_strings = [''--slurm-memory''], dest = ''slurm_memory'', kind = Store,
        default_value = Some (PInt 4000), conv = AsString, choices = None, required = False\<rparr>]"

definition example_snakemake :: "action list" where
  "example_snakemake =
     [\<lparr>option_strings = [''--jobs''], dest = ''jobs'', kind = Store,
        default_value = Some (PInt 4), conv = AsString, choices = None, required = False\<rparr>,
      \<lparr>option_strings = [''--working-directory''], dest = ''workdir'', kind = Store,
        default_value = Some (PStr ''analysis''), conv = AsString, choices = None, required = False\<rparr>,
      \<lparr>option_strings = [''--force''], dest = ''force'', kind = StoreConst (PBool True),
        default_value = Some (PBool False), conv = AsString, choices = None, required = False\<rparr>]"

definition example_parser :: parser where
  "example_parser = help_action # example_slurm @ example_snakemake @ own_arguments"

definition example_config :: cfg where
  "example_config =
     [(''input_directory'', Value (PStr [])),
      (''input_pattern'', Value (PStr ''*fastq.gz'')),
      (''bcl2fastq'', Section [(''threads'', Value (PInt 4)), (''options'', Value (PStr []))]),
      (''freebayes'', Section [(''ploidy'', Value (PInt 2))])]"

definition example_common :: "cfg \<Rightarrow> (unit, string list) pipelines_common" where
  "example_common template =
     \<lparr>slurm_options = example_slurm,
      snakemake_options = example_snakemake,
      PipelineManager = (\<lambda>options name w. (Inr \<lparr>config = template, internals = ()\<rparr>, w)),
      manager_setup = (\<lambda>m w. (Inr m, w @ [''variant_calling/''])),
      manager_teardown = (\<lambda>m w. (Inr m, w @ [''variant_calling/config.yaml'',
                                               ''variant_calling/variant_calling.sh'']))\<rparr>"

text \<open>The options that \<^verbatim>\<open>--fastq-directory /data/run1 --run-mode local\<close> gives with the
  sample groups, but for the thread count.\<close>

definition example_options :: "int \<Rightarrow> namespace" where
  "example_options n =
     [(''slurm_cores_per_job'', PInt 4), (''slurm_queue'', PStr ''common''),
      (''slurm_memory'', PInt 4000), (''jobs'', PInt 4), (''workdir'', PStr ''analysis''),
      (''force'', PBool False), (''run_mode'', PStr ''local''), (''outdir'', PStr ''fastqc''),
      (''fastq_directory'', PStr ''/data/run1''), (''input_pattern'', PStr ''*fastq.gz''),
      (''threads'', PInt n)]"

text \<open>
  A second sample manager reads the template configuration from the world, so that two runs
  can stage different configurations; and a template that differs from the first in the two
  fields that the patch step is to set.
\<close>

definition example_disk :: "(unit, cfg \<times> string list) pipelines_common" where
  "example_disk =
     \<lparr>slurm_options = example_slurm,
      snakemake_options = example_snakemake,
      PipelineManager = (\<lambda>options name (template, written).
         (Inr \<lparr>config = template, internals = ()\<rparr>, (template, written))),
      manager_setup = (\<lambda>m (template, written). (Inr m, (template, written @ [''variant_calling/'']))),
      manager_teardown = (\<lambda>m (template, written).
         (Inr m, (template, written @ [''variant_calling/config.yaml''])))\<rparr>"

definition example_config_edited :: cfg where
  "example_config_edited =
     [(''input_directory'', Value (PStr ''/old/run0'')),
      (''input_pattern'', Value (PStr ''*fastq.gz'')),
      (''bcl2fastq'', Section [(''threads'', Value (PInt 16)), (''options'', Value (PStr []))]),
      (''freebayes'', Section [(''ploidy'', Value (PInt 2))])]"

section \<open>Properties of the parser\<close>

subsection \<open>Matching an option\<close>

lemma map_of_setattr: "map_of (setattr kvs k v) k' = (if k' = k then Some v else map_of kvs k')"
  by (induction kvs k v rule: setattr.induct) auto

lemma in_cluster: "a \<in> set (cluster p os e) \<longleftrightarrow> (\<exists>c \<in> set e. map_of (option_string_actions p) [hd os, c] = Some a)"
  by (force simp: cluster_def List.map_filter_def)

lemma cluster_tl: "set (cluster p [x, y] (tl e)) \<subseteq> set (cluster p (x # os) e)"
  by (cases e) (auto simp: in_cluster)

lemma cluster_tl_tl: "set (cluster p [x, y] (tl (tl e))) \<subseteq> set (cluster p (x # os) e)"
  by (cases e; cases "tl e") (auto simp: in_cluster)

lemma match_optional_ok:
  "2 \<le> length os \<Longrightarrow> a \<in> M \<Longrightarrow>
   (case e of None \<Rightarrow> True | Some e' \<Rightarrow> set (cluster p os e') \<subseteq> M) \<Longrightarrow>
   (\<forall>(a, args, os) \<in> set acc. a \<in> M \<and> length args = nargs a) \<Longrightarrow>
   match_ok p f M (match_optional p f a os sep e acc)"
proof (induction p f a os sep e acc rule: match_optional.induct)
  case (1 p following a option_string sep explicit_arg action_tuples)
  note prems = "1.prems"
  show ?case
  proof (cases explicit_arg)
    case None
    with prems show ?thesis
      by (subst match_optional.simps)
         (auto simp: match_ok_def nargs_def split: if_splits list.splits prod.splits token.splits kind.splits)
  next
    case (Some e)
    note ex = Some
    show ?thesis
    proof (cases "nargs a = 0 \<and> option_string ! 1 \<noteq> CHR ''-'' \<and> e \<noteq> [] \<and> \<not> ((sep \<noteq> None \<and> sep \<noteq> Some []) \<or> hd e = CHR ''-'')")
      case False
      with prems ex show ?thesis
        by (subst match_optional.simps)
           (auto simp: match_ok_def nargs_def split: if_splits option.splits kind.splits)
    next
      case True
      from True have e: "e \<noteq> []" by auto
      from prems(1) obtain x os' where os: "option_string = x # os'" by (cases option_string) auto
      have acc': "\<forall>(a, args, os) \<in> set (action_tuples @ [(a, [], option_string)]). a \<in> M \<and> length args = nargs a"
        using prems True by auto
      show ?thesis
      proof (cases "map_of (option_string_actions p) [hd option_string, hd e]")
        case None
        with prems ex True acc' show ?thesis
          by (subst match_optional.simps) (auto simp: match_ok_def split: if_splits option.splits)
      next
        case (Some a')
        note a' = Some
        have hd_in: "a' \<in> set (cluster p option_string e)"
          using a' e by (cases e) (auto simp: in_cluster)
        with prems ex have a'M: "a' \<in> M" by auto
        have len2: "2 \<le> length [hd option_string, hd e]" by simp
        have sub1: "set (cluster p [hd option_string, hd e] (tl e)) \<subseteq> M"
          using cluster_tl[of p "hd option_string" "hd e" e os'] os prems(3) ex by auto
        have sub2: "set (cluster p [hd option_string, hd e] (tl (tl e))) \<subseteq> M"
          using cluster_tl_tl[of p "hd option_string" "hd e" e os'] os prems(3) ex by auto
        have nlen: "\<not> length option_string < 2" using prems(1) by simp
        consider (a) "tl e = []" | (b) "tl e \<noteq> []" "hd (tl e) = CHR ''=''" | (c) "tl e \<noteq> []" "hd (tl e) \<noteq> CHR ''=''"
          by blast
        then show ?thesis
        proof cases
          case a
          have eq: "match_optional p following a option_string sep explicit_arg action_tuples =
                match_optional p following a' [hd option_string, hd e] None None (action_tuples @ [(a, [], option_string)])"
            using ex True a' a nlen by (subst match_optional.simps) auto
          show ?thesis unfolding eq
            using "1.IH"(1)[OF ex _ _ _ a' a len2 a'M _ acc'] True nlen by auto
        next
          case b
          have eq: "match_optional p following a option_string sep explicit_arg action_tuples =
                match_optional p following a' [hd option_string, hd e] (Some ''='') (Some (tl (tl e))) (action_tuples @ [(a, [], option_string)])"
            using ex True a' b nlen by (subst match_optional.simps) auto
          show ?thesis unfolding eq
            using "1.IH"(2)[OF ex _ _ _ a' b(1) b(2) len2 a'M _ acc'] True nlen sub2 by auto
        next
          case c
          have eq: "match_optional p following a option_string sep explicit_arg action_tuples =
                match_optional p following a' [hd option_string, hd e] (Some []) (Some (tl e)) (action_tuples @ [(a, [], option_string)])"
            using ex True a' c nlen by (subst match_optional.simps) auto
          show ?thesis unfolding eq
            using "1.IH"(3)[OF ex _ _ _ a' c(1) c(2) len2 a'M _ acc'] True nlen sub1 by auto
        qed
      qed
    qed
  qed
qed

lemma get_option_tuples_sound:
  "get_option_tuples p s = Inr ts \<Longrightarrow> (Some a, os, sep, e) \<in> set ts \<Longrightarrow>
   (os, a) \<in> set (option_string_actions p)"
  by (auto simp: get_option_tuples_def split: list.splits if_splits prod.splits)

lemma get_option_tuples_failure:
  "2 \<le> length s \<Longrightarrow> get_option_tuples p s = Inl f \<Longrightarrow> \<exists>m. f = parser_error m"
  by (cases s; cases "tl s") (auto simp: get_option_tuples_def split: list.splits if_splits prod.splits)

lemma get_option_tuples_failure':
  "get_option_tuples p s = Inl f \<Longrightarrow> s \<noteq> [] \<Longrightarrow> length s \<noteq> Suc 0 \<Longrightarrow> \<exists>m. f = parser_error m"
  by (rule get_option_tuples_failure[of s p f]) (cases s; cases "tl s"; auto)+

lemma parse_optional_sound:
  assumes "parse_optional p s = Inr (Some t)"
  shows "token_ok p (Opt t)"
proof -
  obtain x os sep e where t: "t = (x, os, sep, e)" by (cases t)
  show ?thesis
  proof (cases x)
    case None
    with t show ?thesis by simp
  next
    case (Some a)
    have "(os, a) \<in> set (option_string_actions p)"
    proof (cases "\<exists>ts. get_option_tuples p s = Inr ts \<and> t \<in> set ts")
      case True
      with t Some show ?thesis by (auto dest: get_option_tuples_sound)
    next
      case False
      have hd_in: "length ts = Suc 0 \<Longrightarrow> hd ts \<in> set ts" for ts :: "option_tuple list"
        by (cases ts) auto
      from False assms t Some show ?thesis
        by (auto simp: parse_optional_def split: if_splits option.splits prod.splits sum.splits
            dest: map_of_SomeD hd_in)
    qed
    with t Some show ?thesis by simp
  qed
qed

lemma parse_optional_failure:
  "parse_optional p s = Inl f \<Longrightarrow> \<exists>m. f = parser_error m"
  by (auto simp: parse_optional_def split: if_splits option.splits prod.splits sum.splits
      intro: get_option_tuples_failure')

lemma arg_strings_pattern_sound:
  "arg_strings_pattern p args = Inr toks \<Longrightarrow>
   length toks = length args \<and> (\<forall>tok \<in> set toks. token_ok p tok)"
proof (induction args arbitrary: toks)
  case Nil
  then show ?case by simp
next
  case (Cons s ss)
  then show ?case
    by (auto split: if_splits sum.splits option.splits dest: parse_optional_sound)
qed

lemma arg_strings_pattern_failure:
  "arg_strings_pattern p args = Inl f \<Longrightarrow> \<exists>m. f = parser_error m"
proof (induction args)
  case Nil
  then show ?case by simp
next
  case (Cons s ss)
  then show ?case
    by (auto split: if_splits sum.splits option.splits dest: parse_optional_failure)
qed

lemma take_actions_cases:
  assumes step: "\<And>a args st st'. a \<in> M \<Longrightarrow> length args = nargs a \<Longrightarrow> I st \<Longrightarrow>
                   take_action a args st = Inr st' \<Longrightarrow> I st'"
      and fail: "\<And>a args st f. a \<in> M \<Longrightarrow> length args = nargs a \<Longrightarrow>
                   take_action a args st = Inl f \<Longrightarrow> F f"
  shows "(\<forall>(a, args, os) \<in> set ts. a \<in> M \<and> length args = nargs a) \<Longrightarrow> I st \<Longrightarrow>
         (case take_actions ts st of Inl f \<Rightarrow> F f | Inr st' \<Rightarrow> I st')"
proof (induction ts arbitrary: st)
  case Nil
  then show ?case by simp
next
  case (Cons t ts)
  obtain a args os where t: "t = (a, args, os)" by (cases t)
  show ?case
  proof (cases "take_action a args st")
    case (Inl f)
    with Cons.prems t fail[of a args st f] show ?thesis by auto
  next
    case (Inr st1)
    with Cons.prems t step[of a args st st1] have "I st1" by auto
    with Cons.IH[of st1] Cons.prems t Inr show ?thesis by auto
  qed
qed

lemma consume_cases:
  assumes step: "\<And>a args st st'. a \<in> M \<Longrightarrow> length args = nargs a \<Longrightarrow> I st \<Longrightarrow>
                   take_action a args st = Inr st' \<Longrightarrow> I st'"
      and ex: "\<And>st x. I st \<Longrightarrow> I (st\<lparr>extras := x\<rparr>)"
      and fail: "\<And>a args st f. a \<in> M \<Longrightarrow> length args = nargs a \<Longrightarrow>
                   take_action a args st = Inl f \<Longrightarrow> F f"
      and err: "\<And>m. F (parser_error m)"
  shows "(\<forall>(s, a) \<in> set (option_string_actions p). 2 \<le> length s) \<Longrightarrow>
         (\<forall>tok \<in> snd ` set toks. token_ok p tok \<and> set (mentioned p tok) \<subseteq> M) \<Longrightarrow> I st \<Longrightarrow>
         (case consume p toks st of Inl f \<Rightarrow> F f | Inr st' \<Rightarrow> I st')"
proof (induction p toks st rule: consume.induct)
  case (1 p st)
  then show ?case by simp
next
  case (2 p s tup following st)
  note wf = "2.prems"(1)
  obtain x os sep e where tup: "tup = (x, os, sep, e)" by (cases tup)
  have rest: "\<forall>tok \<in> snd ` set (drop n following). token_ok p tok \<and> set (mentioned p tok) \<subseteq> M" for n
    using "2.prems"(2) by (auto dest: in_set_dropD)
  show ?case
  proof (cases x)
    case None
    have "consume_optional p s tup following st = Inr (st\<lparr>extras := extras st @ [s]\<rparr>, 0)"
      using tup None by (simp add: consume_optional_def)
    with "2.IH"[OF this refl wf] rest[of 0] ex[OF "2.prems"(3)] show ?thesis by simp
  next
    case (Some a)
    from "2.prems"(2) tup Some have ok: "(os, a) \<in> set (option_string_actions p)"
      and men: "set (mentioned p (Opt (Some a, os, sep, e))) \<subseteq> M" by auto
    from bspec[OF wf ok] have len: "2 \<le> length os" by simp
    from men have aM: "a \<in> M" by (cases e) auto
    from men have cl: "case e of None \<Rightarrow> True | Some e' \<Rightarrow> set (cluster p os e') \<subseteq> M"
      by (cases e) auto
    have mo: "match_ok p following M (match_optional p following a os sep e [])"
      by (rule match_optional_ok[OF len aM cl]) simp
    show ?thesis
    proof (cases "match_optional p following a os sep e []")
      case (Inl f)
      with mo obtain m where "f = parser_error m" by (auto simp: match_ok_def)
      with Inl tup Some err show ?thesis by (simp add: consume_optional_def)
    next
      case (Inr r)
      obtain tuples un n where r: "r = (tuples, un, n)" by (cases r)
      from mo Inr r have tuples: "\<forall>(a, args, os) \<in> set tuples. a \<in> M \<and> length args = nargs a"
        by (auto simp: match_ok_def)
      have I1: "I (st\<lparr>extras := extras st @ un\<rparr>)" by (rule ex[OF "2.prems"(3)])
      have ta: "case take_actions tuples (st\<lparr>extras := extras st @ un\<rparr>) of Inl f \<Rightarrow> F f | Inr st' \<Rightarrow> I st'"
        by (rule take_actions_cases[where M = M and I = I and F = F, OF step fail tuples I1])
      show ?thesis
      proof (cases "take_actions tuples (st\<lparr>extras := extras st @ un\<rparr>)")
        case (Inl f)
        with ta Inr r tup Some show ?thesis by (simp add: consume_optional_def)
      next
        case (Inr st1)
        with ta have "I st1" by simp
        have co: "consume_optional p s tup following st = Inr (st1, n)"
          using Inr \<open>match_optional p following a os sep e [] = Inr r\<close> r tup Some
          by (simp add: consume_optional_def)
        from "2.IH"[OF co refl wf rest[of n] \<open>I st1\<close>] co show ?thesis by simp
      qed
    qed
  qed
next
  case (3 p s following st)
  from "3.IH"[OF "3.prems"(1) _ ex[OF "3.prems"(3)]] "3.prems"(2) show ?case by simp
next
  case (4 p s following st)
  from "4.IH"[OF "4.prems"(1) _ ex[OF "4.prems"(3)]] "4.prems"(2) show ?case by simp
qed

subsection \<open>The options of this file\<close>

lemma take_action_Inr:
  "take_action a args st = Inr st' \<Longrightarrow>
   seen_actions st' = a # seen_actions st \<and> extras st' = extras st \<and>
   (\<exists>v. namespace st' = setattr (namespace st) (dest a) v \<and>
        (kind a = Store \<longrightarrow> get_values a args = Inr v) \<and> (\<forall>c. kind a = StoreConst c \<longrightarrow> v = c))"
  by (auto simp: take_action_def split: sum.splits kind.splits)

lemma get_values_failure:
  "get_values a args = Inl f \<Longrightarrow> \<exists>m. f = parser_error m"
proof -
  have gv: "get_value a s = Inl f \<Longrightarrow> \<exists>m. f = parser_error m" for s f
    by (auto simp: get_value_def split: conversion.splits option.splits)
  have cv: "check_value a v = Inl f \<Longrightarrow> \<exists>m. f = parser_error m" for v f
    by (auto simp: check_value_def split: option.splits if_splits)
  have gl: "get_values_list a ss = Inl f \<Longrightarrow> \<exists>m. f = parser_error m" for ss f
    by (induction ss) (auto split: sum.splits dest: gv)
  have cl: "check_values_list a vs = Inl f \<Longrightarrow> \<exists>m. f = parser_error m" for vs f
    by (induction vs) (auto split: sum.splits dest: cv)
  assume "get_values a args = Inl f"
  then show ?thesis
    by (auto simp: get_values_def split: if_splits sum.splits dest: gv cv gl cl)
qed

lemma take_action_Inl:
  "take_action a args st = Inl f \<Longrightarrow> (\<exists>m. f = parser_error m) \<or> (f = help_exit \<and> kind a = Help)"
  by (auto simp: take_action_def split: sum.splits kind.splits dest: get_values_failure)

lemma supplied_values_drop:
  "n = 0 \<or> (n = 1 \<and> (\<exists>s r. following = (s, Arg) # r)) \<Longrightarrow>
   supplied_values A (drop n following) = supplied_values A following"
  by auto

lemma not_in_cluster:
  "\<forall>s \<in> set (option_strings A). 2 < length s \<Longrightarrow> A \<notin> set (cluster p os e)"
  by (fastforce simp: in_cluster option_string_actions_def dest!: map_of_SomeD)

lemma token_actions_in_parser:
  "token_ok p tok \<Longrightarrow> set (mentioned p tok) \<subseteq> set p"
proof (cases tok)
  case (Opt t)
  obtain x os sep e where t: "t = (x, os, sep, e)" by (cases t)
  assume "token_ok p tok"
  with Opt t show ?thesis
    by (cases x; cases e) (auto simp: in_cluster option_string_actions_def dest!: map_of_SomeD)
qed auto

lemma consume_optional_other:
  assumes wf: "\<forall>(s, a) \<in> set (option_string_actions p). 2 \<le> length s"
      and long: "\<forall>s \<in> set (option_strings A). 2 < length s"
      and uniq: "\<forall>a \<in> set p. dest a = dest A \<longrightarrow> a = A"
      and ok: "token_ok p (Opt (x, os, sep, e))"
      and other: "x \<noteq> Some A"
      and co: "consume_optional p s (x, os, sep, e) following st = Inr (st1, n)"
  shows "map_of (namespace st1) (dest A) = map_of (namespace st) (dest A) \<and>
         (A \<in> set (seen_actions st1) \<longleftrightarrow> A \<in> set (seen_actions st)) \<and>
         (n = 0 \<or> (n = 1 \<and> (\<exists>s r. following = (s, Arg) # r)))"
proof (cases x)
  case None
  with co show ?thesis by (auto simp: consume_optional_def)
next
  case (Some a)
  let ?M = "set p - {A}"
  let ?I = "\<lambda>st'. map_of (namespace st') (dest A) = map_of (namespace st) (dest A) \<and>
         (A \<in> set (seen_actions st') \<longleftrightarrow> A \<in> set (seen_actions st))"
  from ok Some have osa: "(os, a) \<in> set (option_string_actions p)" by simp
  from bspec[OF wf osa] have len: "2 \<le> length os" by simp
  from osa have ap: "a \<in> set p" by (auto simp: option_string_actions_def)
  with other Some have aM: "a \<in> ?M" by auto
  have cl: "case e of None \<Rightarrow> True | Some e' \<Rightarrow> set (cluster p os e') \<subseteq> ?M"
    using not_in_cluster[OF long] token_actions_in_parser[OF ok] Some by (cases e) auto
  have mo: "match_ok p following ?M (match_optional p following a os sep e [])"
    by (rule match_optional_ok[OF len aM cl]) simp
  from co Some obtain tuples un where
    m: "match_optional p following a os sep e [] = Inr (tuples, un, n)" and
    ta: "take_actions tuples (st\<lparr>extras := extras st @ un\<rparr>) = Inr st1"
    by (auto simp: consume_optional_def split: sum.splits prod.splits)
  from mo m have tuples: "\<forall>(a, args, os) \<in> set tuples. a \<in> ?M \<and> length args = nargs a"
    and n: "n = 0 \<or> (n = 1 \<and> (\<exists>s r. following = (s, Arg) # r))"
    by (auto simp: match_ok_def)
  have step: "\<And>a args st' st''. a \<in> ?M \<Longrightarrow> length args = nargs a \<Longrightarrow> ?I st' \<Longrightarrow>
                   take_action a args st' = Inr st'' \<Longrightarrow> ?I st''"
    using uniq by (auto dest!: take_action_Inr simp: map_of_setattr)
  have "case take_actions tuples (st\<lparr>extras := extras st @ un\<rparr>) of Inl f \<Rightarrow> True | Inr st' \<Rightarrow> ?I st'"
    by (rule take_actions_cases[where M = ?M and I = ?I and F = "\<lambda>_. True", OF step _ tuples]) auto
  with ta n show ?thesis by simp
qed

lemma consume_optional_own:
  assumes store: "kind A = Store"
      and co: "consume_optional p s (Some A, os, sep, e) following st = Inr (st1, n)"
  shows "\<exists>v x. supplied_here A (Opt (Some A, os, sep, e)) following = Some v \<and>
           get_values A [v] = Inr x \<and>
           map_of (namespace st1) (dest A) = Some x \<and> A \<in> set (seen_actions st1) \<and>
           (n = 0 \<or> (n = 1 \<and> (\<exists>s r. following = (s, Arg) # r)))"
proof -
  from store have n1: "nargs A = 1" by (simp add: nargs_def)
  show ?thesis
  proof (cases e)
    case (Some x)
    have m: "match_optional p following A os sep (Some x) [] = Inr ([(A, [x], os)], [], 0)"
      using n1 by (subst match_optional.simps) simp
    from co Some m obtain st0 where "take_action A [x] st0 = Inr st1"
      by (auto simp: consume_optional_def split: sum.splits)
    from take_action_Inr[OF this] store co Some m show ?thesis
      by (auto simp: consume_optional_def map_of_setattr split: sum.splits)
  next
    case None
    show ?thesis
    proof (cases "\<exists>s' r. following = (s', Arg) # r")
      case True
      then obtain s' r where f: "following = (s', Arg) # r" by blast
      have m: "match_optional p following A os sep None [] = Inr ([(A, [s'], os)], [], 1)"
        using n1 f by (subst match_optional.simps) simp
      from co None m obtain st0 where "take_action A [s'] st0 = Inr st1"
        by (auto simp: consume_optional_def split: sum.splits)
      from take_action_Inr[OF this] store co None m f show ?thesis
        by (auto simp: consume_optional_def map_of_setattr split: sum.splits)
    next
      case False
      have "\<exists>m. match_optional p following A os sep None [] = Inl (parser_error m)"
        using n1 False by (subst match_optional.simps) (auto split: list.splits token.splits)
      with co None show ?thesis by (auto simp: consume_optional_def)
    qed
  qed
qed

lemma consume_own:
  assumes store: "kind A = Store"
      and long: "\<forall>s \<in> set (option_strings A). 2 < length s"
  shows "(\<forall>(s, a) \<in> set (option_string_actions p). 2 \<le> length s) \<Longrightarrow>
         (\<forall>a \<in> set p. dest a = dest A \<longrightarrow> a = A) \<Longrightarrow>
         (\<forall>tok \<in> snd ` set toks. token_ok p tok) \<Longrightarrow>
         consume p toks st = Inr st' \<Longrightarrow>
         (supplied_values A toks = [] \<longrightarrow>
            map_of (namespace st') (dest A) = map_of (namespace st) (dest A) \<and>
            (A \<in> set (seen_actions st') \<longleftrightarrow> A \<in> set (seen_actions st))) \<and>
         (supplied_values A toks \<noteq> [] \<longrightarrow>
            A \<in> set (seen_actions st') \<and>
            (\<exists>x. get_values A [last (supplied_values A toks)] = Inr x \<and>
                 map_of (namespace st') (dest A) = Some x)) \<and>
         (\<forall>v \<in> set (supplied_values A toks). \<exists>x. get_values A [v] = Inr x)"
proof (induction p toks st rule: consume.induct)
  case (1 p st)
  then show ?case by simp
next
  case (2 p s tup following st)
  note wf = "2.prems"(1) and uniq = "2.prems"(2)
  obtain x os sep e where tup: "tup = (x, os, sep, e)" by (cases tup)
  from "2.prems"(4) obtain st1 n where
    co: "consume_optional p s tup following st = Inr (st1, n)" and
    rest: "consume p (drop n following) st1 = Inr st'"
    by (auto split: sum.splits)
  have toks': "\<forall>tok \<in> snd ` set (drop n following). token_ok p tok"
    using "2.prems"(3) by (auto dest: in_set_dropD)
  note IH = "2.IH"[OF co refl wf uniq toks' rest]
  from "2.prems"(3) tup have ok: "token_ok p (Opt (x, os, sep, e))" by simp
  show ?case
  proof (cases "x = Some A")
    case True
    from consume_optional_own[OF store co[unfolded tup True]] obtain v y where
      here: "supplied_here A (Opt (Some A, os, sep, e)) following = Some v" and
      gv: "get_values A [v] = Inr y" and
      ns1: "map_of (namespace st1) (dest A) = Some y" and
      seen1: "A \<in> set (seen_actions st1)" and
      n: "n = 0 \<or> (n = 1 \<and> (\<exists>s r. following = (s, Arg) # r))"
      by blast
    have sv: "supplied_values A ((s, Opt tup) # following) = v # supplied_values A (drop n following)"
      using here tup True supplied_values_drop[OF n, of A] by simp
    show ?thesis
      unfolding sv using IH gv ns1 seen1 by (cases "supplied_values A (drop n following) = []") auto
  next
    case False
    from consume_optional_other[OF wf long uniq ok False co[unfolded tup]]
    have ns1: "map_of (namespace st1) (dest A) = map_of (namespace st) (dest A)"
      and seen1: "A \<in> set (seen_actions st1) \<longleftrightarrow> A \<in> set (seen_actions st)"
      and n: "n = 0 \<or> (n = 1 \<and> (\<exists>s r. following = (s, Arg) # r))"
      by auto
    have "supplied_here A (Opt tup) following = None"
      using False tup by (cases "(A, Opt tup, following)" rule: supplied_here.cases) auto
    then have sv: "supplied_values A ((s, Opt tup) # following) = supplied_values A (drop n following)"
      using supplied_values_drop[OF n, of A] by simp
    show ?thesis unfolding sv using IH ns1 seen1 by auto
  qed
next
  case (3 p s following st)
  from "3.IH"[OF "3.prems"(1) "3.prems"(2)] "3.prems"(3,4) show ?case by simp
next
  case (4 p s following st)
  from "4.IH"[OF "4.prems"(1) "4.prems"(2)] "4.prems"(3,4) show ?case by simp
qed

lemmas own_defs = own_arguments_def run_mode_argument_def outdir_argument_def
  fastq_directory_argument_def input_pattern_argument_def threads_argument_def

lemma own_dests: "map dest own_arguments = [''run_mode'', ''outdir'', ''fastq_directory'', ''input_pattern'', ''threads'']"
  by (simp add: own_defs)

lemma own_unique:
  assumes "delegated_ok (sl @ sn)" and "p = help_action # sl @ sn @ own_arguments"
      and "A \<in> set own_arguments"
  shows "\<forall>a \<in> set p. dest a = dest A \<longrightarrow> a = A"
proof -
  have d: "distinct (map dest own_arguments)" by (simp add: own_dests)
  have own: "a \<in> set own_arguments \<Longrightarrow> dest a = dest A \<Longrightarrow> a = A" for a
    using d assms(3) by (meson distinct_map inj_onD)
  have h: "dest help_action \<notin> set (map dest own_arguments)"
    by (simp add: own_dests help_action_def SUPPRESS_def)
  have A: "dest A \<in> set (map dest own_arguments)" using assms(3) by simp
  show ?thesis
  proof (intro ballI impI)
    fix a assume a: "a \<in> set p" "dest a = dest A"
    from a(1) assms(2) consider "a = help_action" | "a \<in> set (sl @ sn)" | "a \<in> set own_arguments"
      by auto
    then show "a = A"
    proof cases
      case 1
      with h A a(2) show ?thesis by simp
    next
      case 2
      with assms(1) have "dest a \<notin> set (map dest own_arguments)"
        unfolding delegated_ok_def by blast
      with A a(2) show ?thesis by simp
    next
      case 3
      with own a(2) show ?thesis by simp
    qed
  qed
qed

lemma parser_wf:
  assumes "delegated_ok (sl @ sn)" and "p = help_action # sl @ sn @ own_arguments"
  shows "\<forall>(s, a) \<in> set (option_string_actions p). 2 \<le> length s"
proof -
  have own: "\<forall>a \<in> set own_arguments. \<forall>s \<in> set (option_strings a). 2 \<le> length s"
    by (simp add: own_defs)
  have h: "\<forall>s \<in> set (option_strings help_action). 2 \<le> length s"
    by (simp add: help_action_def)
  have g: "\<forall>a \<in> set (sl @ sn). \<forall>s \<in> set (option_strings a). 2 \<le> length s"
    using assms(1) unfolding delegated_ok_def by blast
  have "\<forall>a \<in> set p. \<forall>s \<in> set (option_strings a). 2 \<le> length s"
    unfolding assms(2) using own h g by auto
  then show ?thesis by (auto simp: option_string_actions_def)
qed

lemma own_store_long:
  "A \<in> set own_arguments \<Longrightarrow> kind A = Store \<and> (\<forall>s \<in> set (option_strings A). 2 < length s)"
  by (auto simp: own_defs)

lemma own_defaults:
  "A \<in> set own_arguments \<Longrightarrow> dest A \<noteq> SUPPRESS \<and> (\<exists>v. default_value A = Some v)"
  by (auto simp: own_defs SUPPRESS_def)

lemma add_actions_Inr: "add_actions p as = Inr p' \<Longrightarrow> p' = p @ as"
proof (induction as arbitrary: p)
  case Nil
  then show ?case by simp
next
  case (Cons a as)
  from Cons.prems have "add_actions (p @ [a]) as = Inr p'"
    by (auto simp: add_action_def Let_def split: sum.splits if_splits)
  from Cons.IH[OF this] show ?case by simp
qed

lemma Options_Inr:
  "Options sl sn = Inr p \<Longrightarrow> p = help_action # sl @ sn @ own_arguments"
  unfolding Options_def using add_actions_Inr[of "[]" _ p] by simp

lemma add_defaults_keep:
  "map_of ns d = Some v \<Longrightarrow> map_of (add_defaults as ns) d = Some v"
proof (induction as arbitrary: ns)
  case Nil
  then show ?case by simp
next
  case (Cons a as)
  show ?case
  proof (cases "\<exists>x. default_value a = Some x \<and> dest a \<noteq> SUPPRESS \<and> map_of ns (dest a) = None")
    case True
    then obtain x where x: "default_value a = Some x" "dest a \<noteq> SUPPRESS" "map_of ns (dest a) = None"
      by blast
    with Cons.prems have "dest a \<noteq> d" by auto
    with Cons.prems have "map_of (setattr ns (dest a) x) d = Some v" by (simp add: map_of_setattr)
    from Cons.IH[OF this] x show ?thesis by simp
  next
    case False
    with Cons.IH[OF Cons.prems] show ?thesis by (auto split: option.splits)
  qed
qed

lemma add_defaults_other:
  "\<forall>a \<in> set as. dest a \<noteq> d \<Longrightarrow> map_of (add_defaults as ns) d = map_of ns d"
  by (induction as arbitrary: ns) (auto simp: map_of_setattr split: option.splits)

lemma add_defaults_unique:
  "A \<in> set as \<Longrightarrow> \<forall>a \<in> set as. dest a = dest A \<longrightarrow> a = A \<Longrightarrow> default_value A = Some v \<Longrightarrow>
   dest A \<noteq> SUPPRESS \<Longrightarrow> map_of ns (dest A) = None \<Longrightarrow>
   map_of (add_defaults as ns) (dest A) = Some v"
proof (induction as arbitrary: ns)
  case Nil
  then show ?case by simp
next
  case (Cons a as)
  show ?case
  proof (cases "a = A")
    case True
    with Cons.prems show ?thesis by (simp add: add_defaults_keep map_of_setattr)
  next
    case False
    with Cons.prems have d: "dest a \<noteq> dest A" and A: "A \<in> set as" by auto
    from Cons.prems have u: "\<forall>a \<in> set as. dest a = dest A \<longrightarrow> a = A" by simp
    show ?thesis
      using Cons.IH[OF A u Cons.prems(3,4)] Cons.prems(5) d
      by (auto simp: map_of_setattr split: option.splits)
  qed
qed

lemma get_value_failure:
  "get_value a s = Inl f \<Longrightarrow> \<exists>m. f = parser_error m"
  by (auto simp: get_value_def split: conversion.splits option.splits)

lemma check_required_failure:
  "check_required as seen ns req = Inl f \<Longrightarrow> \<exists>m. f = parser_error m"
  by (induction as seen ns req rule: check_required.induct)
     (auto split: if_splits option.splits pyval.splits sum.splits dest: get_value_failure)

lemma check_required_result:
  "check_required as seen ns req = Inr (ns', req') \<Longrightarrow>
   req' = req @ map get_action_name (filter (\<lambda>a. a \<notin> set seen \<and> required a) as) \<and>
   ((\<forall>a \<in> set as. dest a = d \<longrightarrow>
        a \<in> set seen \<or> required a \<or> conv a = AsString \<or> (\<forall>x. default_value a \<noteq> Some (PStr x)))
     \<longrightarrow> map_of ns' d = map_of ns d)"
proof (induction as arbitrary: ns req)
  case Nil
  then show ?case by simp
next
  case (Cons a as)
  show ?case
  proof (cases "a \<in> set seen")
    case True
    with Cons.prems have "check_required as seen ns req = Inr (ns', req')" by simp
    from Cons.IH[OF this] True show ?thesis by auto
  next
    case notseen: False
    show ?thesis
    proof (cases "required a")
      case True
      with Cons.prems notseen
      have "check_required as seen ns (req @ [get_action_name a]) = Inr (ns', req')" by simp
      from Cons.IH[OF this] True notseen show ?thesis by auto
    next
      case notreq: False
      show ?thesis
      proof (cases "\<exists>x. default_value a = Some (PStr x) \<and> map_of ns (dest a) = Some (PStr x)")
        case True
        then obtain x where x: "default_value a = Some (PStr x)" "map_of ns (dest a) = Some (PStr x)"
          by blast
        from Cons.prems notseen notreq x obtain v where
          gv: "get_value a x = Inr v" and
          rest: "check_required as seen (setattr ns (dest a) v) req = Inr (ns', req')"
          by (auto split: sum.splits)
        have "conv a = AsString \<Longrightarrow> v = PStr x" using gv by (simp add: get_value_def)
        with Cons.IH[OF rest] notseen notreq x
        show ?thesis by (auto simp: map_of_setattr)
      next
        case False
        with Cons.prems notseen notreq
        have "check_required as seen ns req = Inr (ns', req')"
          by (auto split: option.splits pyval.splits if_splits)
        from Cons.IH[OF this] notseen notreq show ?thesis by auto
      qed
    qed
  qed
qed

lemma zip_tokens:
  "length pattern = length args \<Longrightarrow> \<forall>tok \<in> set pattern. Q tok \<Longrightarrow>
   \<forall>tok \<in> snd ` set (zip args pattern). Q tok"
  by (auto dest: set_zip_rightD)

lemma parse_known_args_own:
  assumes ok: "delegated_ok (sl @ sn)" and p: "Options sl sn = Inr p"
      and A: "A \<in> set own_arguments"
      and parse: "parse_known_args p args = Inr (ns, argv)"
  shows "(supplied p args A = [] \<longrightarrow> \<not> required A \<and> map_of ns (dest A) = default_value A) \<and>
         (supplied p args A \<noteq> [] \<longrightarrow>
            (\<exists>x. get_values A [last (supplied p args A)] = Inr x \<and> map_of ns (dest A) = Some x)) \<and>
         (\<forall>v \<in> set (supplied p args A). \<exists>x. get_values A [v] = Inr x)"
proof -
  note pdef = Options_Inr[OF p]
  note wf = parser_wf[OF ok pdef] and uniq = own_unique[OF ok pdef A]
  from own_store_long[OF A] have store: "kind A = Store"
    and long: "\<forall>s \<in> set (option_strings A). 2 < length s" by auto
  from own_defaults[OF A] obtain dv where dv: "default_value A = Some dv" and ns: "dest A \<noteq> SUPPRESS"
    by auto
  have Ap: "A \<in> set p" using A pdef by simp
  let ?st0 = "\<lparr>namespace = add_defaults p [], seen_actions = [], extras = []\<rparr>"
  from parse obtain pattern st req where
    pat: "arg_strings_pattern p args = Inr pattern" and
    con: "consume p (zip args pattern) ?st0 = Inr st" and
    chk: "check_required p (seen_actions st) (namespace st) [] = Inr (ns, req)" and
    req: "req = []"
    by (auto simp: parse_known_args_def split: sum.splits prod.splits if_splits)
  from arg_strings_pattern_sound[OF pat]
  have toks: "\<forall>tok \<in> snd ` set (zip args pattern). token_ok p tok"
    by (intro zip_tokens) auto
  have sup: "supplied p args A = supplied_values A (zip args pattern)"
    using pat by (simp add: supplied_def)
  have init: "map_of (namespace ?st0) (dest A) = Some dv"
    using add_defaults_unique[OF Ap uniq dv ns, of "[]"] by simp
  note own = consume_own[OF store long wf uniq toks con, folded sup]
  from check_required_result[OF chk, of "dest A"] req
  have allreq: "\<forall>a \<in> set p. required a \<longrightarrow> a \<in> set (seen_actions st)"
    by (auto simp: filter_empty_conv)
  have keep: "map_of ns (dest A) = map_of (namespace st) (dest A)"
    if "A \<in> set (seen_actions st) \<or> required A \<or> conv A = AsString \<or> (\<forall>x. default_value A \<noteq> Some (PStr x))"
    using check_required_result[OF chk, of "dest A"] uniq that by auto
  have cases5: "required A \<or> conv A = AsString \<or> (\<forall>x. default_value A \<noteq> Some (PStr x))"
    using A by (auto simp: own_defs)
  show ?thesis
  proof (cases "supplied p args A = []")
    case True
    with own init have unseen: "A \<notin> set (seen_actions st)"
      and val: "map_of (namespace st) (dest A) = Some dv" by auto
    from unseen allreq Ap have "\<not> required A" by auto
    with True val keep cases5 dv show ?thesis by auto
  next
    case False
    with own keep show ?thesis by auto
  qed
qed

lemma parse_args_failure:
  assumes ok: "delegated_ok (sl @ sn)" and p: "Options sl sn = Inr p"
      and parse: "parse_args p args = Inl f"
  shows "(\<exists>m. f = parser_error m) \<or> (f = help_exit \<and> asks_help p args)"
proof -
  note pdef = Options_Inr[OF p]
  note wf = parser_wf[OF ok pdef]
  let ?st0 = "\<lparr>namespace = add_defaults p [], seen_actions = [], extras = []\<rparr>"
  show ?thesis
  proof (cases "arg_strings_pattern p args")
    case (Inl e)
    with parse arg_strings_pattern_failure[OF Inl] show ?thesis
      by (auto simp: parse_args_def parse_known_args_def)
  next
    case (Inr pattern)
    let ?M = "\<Union>tok \<in> set pattern. set (mentioned p tok)"
    let ?F = "\<lambda>f. (\<exists>m. f = parser_error m) \<or> (f = help_exit \<and> (\<exists>a \<in> ?M. kind a = Help))"
    from arg_strings_pattern_sound[OF Inr]
    have toks: "\<forall>tok \<in> snd ` set (zip args pattern). token_ok p tok \<and> set (mentioned p tok) \<subseteq> ?M"
      by (intro zip_tokens) auto
    have c: "case consume p (zip args pattern) ?st0 of Inl f \<Rightarrow> ?F f | Inr st' \<Rightarrow> True"
      by (rule consume_cases[where M = ?M and I = "\<lambda>_. True" and F = ?F, OF _ _ _ _ wf toks])
         (auto dest: take_action_Inl)
    have asks: "(\<exists>a \<in> ?M. kind a = Help) \<Longrightarrow> asks_help p args"
      using Inr by (auto simp: asks_help_def list_ex_iff)
    show ?thesis
    proof (cases "consume p (zip args pattern) ?st0")
      case (Inl e)
      with c parse Inr asks show ?thesis
        by (auto simp: parse_args_def parse_known_args_def)
    next
      case st: (Inr st)
      show ?thesis
      proof (cases "check_required p (seen_actions st) (namespace st) []")
        case (Inl e)
        with parse Inr st check_required_failure[OF Inl] show ?thesis
          by (auto simp: parse_args_def parse_known_args_def)
      next
        case (Inr r)
        with parse st \<open>arg_strings_pattern p args = Inr pattern\<close> show ?thesis
          by (auto simp: parse_args_def parse_known_args_def split: prod.splits if_splits)
      qed
    qed
  qed
qed

lemma parse_known_args_no_attribute:
  assumes p: "Options sl sn = Inr p" and ok: "delegated_ok (sl @ sn)"
      and no: "name \<notin> dest ` set p"
      and parse: "parse_known_args p args = Inr (ns, argv)"
  shows "map_of ns name = None"
proof -
  note pdef = Options_Inr[OF p]
  note wf = parser_wf[OF ok pdef]
  let ?st0 = "\<lparr>namespace = add_defaults p [], seen_actions = [], extras = []\<rparr>"
  from parse obtain pattern st req where
    pat: "arg_strings_pattern p args = Inr pattern" and
    con: "consume p (zip args pattern) ?st0 = Inr st" and
    chk: "check_required p (seen_actions st) (namespace st) [] = Inr (ns, req)"
    by (auto simp: parse_known_args_def split: sum.splits prod.splits if_splits)
  let ?I = "\<lambda>st. map_of (namespace st) name = None"
  from arg_strings_pattern_sound[OF pat]
  have toks: "\<forall>tok \<in> snd ` set (zip args pattern). token_ok p tok \<and> set (mentioned p tok) \<subseteq> set p"
    by (intro zip_tokens) (auto dest: token_actions_in_parser)
  have init: "?I ?st0" using add_defaults_other[of p name "[]"] no by auto
  have step: "\<And>a args st st'. a \<in> set p \<Longrightarrow> length args = nargs a \<Longrightarrow> ?I st \<Longrightarrow>
                   take_action a args st = Inr st' \<Longrightarrow> ?I st'"
    using no by (auto dest!: take_action_Inr simp: map_of_setattr)
  have "case consume p (zip args pattern) ?st0 of Inl f \<Rightarrow> True | Inr st' \<Rightarrow> ?I st'"
    by (rule consume_cases[where M = "set p" and I = ?I and F = "\<lambda>_. True", OF step _ _ _ wf toks init])
       auto
  with con have "?I st" by simp
  moreover have "map_of ns name = map_of (namespace st) name"
    using check_required_result[OF chk, of name] no by auto
  ultimately show ?thesis by simp
qed

subsection \<open>The whole parse and the sample instance\<close>

lemma main_parse_failure:
  "Options (slurm_options lib) (snakemake_options lib) = Inr p \<Longrightarrow>
   parse_args p (drop 1 argv) = Inl f \<Longrightarrow>
   main lib sys_argv cwd (Some argv) w = (Inl f, w)"
  by (simp add: main_def)

lemma main_sys_argv:
  "main lib argv cwd None w = main lib sys_argv cwd (Some argv) w"
  by (simp add: main_def split: sum.splits)

lemma parse_args_own:
  assumes ok: "delegated_ok (sl @ sn)" and p: "Options sl sn = Inr p"
      and A: "A \<in> set own_arguments"
      and parse: "parse_args p args = Inr ns"
  shows "(supplied p args A = [] \<longrightarrow> \<not> required A \<and> map_of ns (dest A) = default_value A) \<and>
         (supplied p args A \<noteq> [] \<longrightarrow>
            (\<exists>x. get_values A [last (supplied p args A)] = Inr x \<and> map_of ns (dest A) = Some x)) \<and>
         (\<forall>v \<in> set (supplied p args A). \<exists>x. get_values A [v] = Inr x)"
proof -
  from parse have "parse_known_args p args = Inr (ns, [])"
    by (auto simp: parse_args_def split: sum.splits prod.splits if_splits)
  from parse_known_args_own[OF ok p A this] show ?thesis .
qed

lemma example_Options: "Options example_slurm example_snakemake = Inr example_parser"
  by code_simp

lemma example_ok: "delegated_ok (example_slurm @ example_snakemake)"
  by code_simp

lemma example_lib [simp]:
  "slurm_options (example_common t) = example_slurm"
  "snakemake_options (example_common t) = example_snakemake"
  by (simp_all add: example_common_def)

lemma own_fields:
  "dest run_mode_argument = ''run_mode''" "required run_mode_argument"
  "dest fastq_directory_argument = ''fastq_directory''" "required fastq_directory_argument"
  "dest outdir_argument = ''outdir''" "default_value outdir_argument = Some (PStr ''fastqc'')"
  "dest input_pattern_argument = ''input_pattern''"
  "default_value input_pattern_argument = Some (PStr ''*fastq.gz'')"
  "dest threads_argument = ''threads''" "default_value threads_argument = Some (PInt 4)"
  by (simp_all add: run_mode_argument_def fastq_directory_argument_def outdir_argument_def
      input_pattern_argument_def threads_argument_def)

lemma get_values_run_mode:
  "get_values run_mode_argument [v] = Inr x \<longleftrightarrow> x = PStr v \<and> (v = ''local'' \<or> v = ''slurm'')"
  by (auto simp: get_values_def get_value_def check_value_def run_mode_argument_def
      split: sum.splits)

lemma get_values_threads:
  "get_values threads_argument [v] = Inr x \<longleftrightarrow> (\<exists>n. py_int v = Some n \<and> x = PInt n)"
  by (auto simp: get_values_def get_value_def check_value_def threads_argument_def
      split: sum.splits option.splits)

lemma parse_args_rejected:
  assumes ok: "delegated_ok (slurm_options lib @ snakemake_options lib)"
      and p: "Options (slurm_options lib) (snakemake_options lib) = Inr p"
      and no: "\<And>options. parse_args p (drop 1 argv) \<noteq> Inr options"
  shows "\<exists>f. parse_args p (drop 1 argv) = Inl f \<and>
             main lib sys_argv cwd (Some argv) w = (Inl f, w) \<and>
             ((\<exists>m. f = SystemExit 2 (UsageError m)) \<or>
              (f = SystemExit 0 HelpText \<and> asks_help p (drop 1 argv)))"
proof -
  from no obtain f where f: "parse_args p (drop 1 argv) = Inl f"
    by (cases "parse_args p (drop 1 argv)") auto
  from parse_args_failure[OF ok p f] main_parse_failure[OF p f] f show ?thesis
    by (auto simp: parser_error_def help_exit_def)
qed

subsection \<open>The patch step\<close>

lemma field_setattr_same: "field (Section (setattr attrs k v)) (k # names) = field v names"
  by (simp add: map_of_setattr)

lemma field_setattr_other:
  "k' \<noteq> k \<Longrightarrow> field (Section (setattr attrs k v)) (k' # names) = field (Section attrs) (k' # names)"
  by (simp add: map_of_setattr)

lemma assign_input_directory_cases:
  "(\<exists>e. assign_input_directory cwd options cfg = (Some e, cfg)) \<or>
   (\<exists>d path. map_of options ''bcl_directory'' = Some d \<and> abspath cwd d = Inr path \<and>
       assign_input_directory cwd options cfg
         = (None, setattr cfg ''input_directory'' (Value (PStr path))))"
  by (auto simp: assign_input_directory_def option_attribute_def split: option.splits sum.splits)

lemma assign_threads_cases:
  "(\<exists>e. assign_threads options cfg = (Some e, cfg)) \<or>
   (\<exists>t attrs. map_of options ''threads'' = Some t \<and> map_of cfg ''bcl2fastq'' = Some (Section attrs) \<and>
       assign_threads options cfg
         = (None, setattr cfg ''bcl2fastq'' (Section (setattr attrs ''threads'' (Value t)))))"
  by (auto simp: assign_threads_def option_attribute_def getattr_def set_attribute_def
      split: option.splits sum.splits cfgval.splits)

lemma assign_input_directory_frame:
  assumes "\<not> prefix [''input_directory''] path" and "path \<noteq> []"
  shows "field (Section (snd (assign_input_directory cwd options cfg))) path = field (Section cfg) path"
proof -
  from assms obtain k names where path: "path = k # names" and k: "k \<noteq> ''input_directory''"
    by (cases path) auto
  from assign_input_directory_cases[of cwd options cfg] show ?thesis
    unfolding path using field_setattr_other[OF k] by auto
qed

lemma assign_threads_frame:
  assumes "\<not> prefix [''bcl2fastq'', ''threads''] path" and "\<not> prefix path [''bcl2fastq'', ''threads'']"
  shows "field (Section (snd (assign_threads options cfg))) path = field (Section cfg) path"
proof -
  from assms(2) obtain k names where path: "path = k # names" by (cases path) auto
  from assign_threads_cases[of options cfg] show ?thesis
  proof
    assume "\<exists>e. assign_threads options cfg = (Some e, cfg)"
    then show ?thesis by auto
  next
    assume "\<exists>t attrs. map_of options ''threads'' = Some t \<and> map_of cfg ''bcl2fastq'' = Some (Section attrs) \<and>
       assign_threads options cfg
         = (None, setattr cfg ''bcl2fastq'' (Section (setattr attrs ''threads'' (Value t))))"
    then obtain t attrs where sec: "map_of cfg ''bcl2fastq'' = Some (Section attrs)"
      and res: "assign_threads options cfg
         = (None, setattr cfg ''bcl2fastq'' (Section (setattr attrs ''threads'' (Value t))))"
      by blast
    show ?thesis
    proof (cases "k = ''bcl2fastq''")
      case False
      with res path show ?thesis by (simp add: map_of_setattr)
    next
      case True
      with assms path obtain k2 names2 where names: "names = k2 # names2" and k2: "k2 \<noteq> ''threads''"
        by (cases names) auto
      from res path True names k2 sec show ?thesis by (simp add: map_of_setattr)
    qed
  qed
qed

lemma patch_cases:
  "(\<exists>e. patch cwd options cfg = (Some e, snd (assign_input_directory cwd options cfg))) \<or>
   (fst (assign_input_directory cwd options cfg) = None \<and>
    patch cwd options cfg = assign_threads options (snd (assign_input_directory cwd options cfg)))"
  using assign_threads_cases[of options "snd (assign_input_directory cwd options cfg)"]
  by (cases "assign_input_directory cwd options cfg")
     (auto simp: patch_def split: option.splits)

lemma parse_args_no_bcl_directory:
  assumes ok: "delegated_ok (sl @ sn)"
      and no: "''bcl_directory'' \<notin> dest ` set (sl @ sn)"
      and p: "Options sl sn = Inr p"
      and parse: "parse_args p args = Inr options"
  shows "map_of options ''bcl_directory'' = None"
proof -
  from parse have pk: "parse_known_args p args = Inr (options, [])"
    by (auto simp: parse_args_def split: sum.splits prod.splits if_splits)
  have own: "''bcl_directory'' \<notin> set (map dest own_arguments)"
    unfolding own_dests by simp
  have h: "dest help_action \<noteq> ''bcl_directory''"
    by (simp add: help_action_def SUPPRESS_def)
  have "''bcl_directory'' \<notin> dest ` set p"
    unfolding Options_Inr[OF p] using own h no by auto
  from parse_known_args_no_attribute[OF p ok this pk] show ?thesis .
qed

lemma main_patch_raises:
  assumes "Options (slurm_options lib) (snakemake_options lib) = Inr p"
      and "parse_args p (drop 1 argv) = Inr options"
      and "PipelineManager lib options NAME w = (Inr manager, w1)"
      and "manager_setup lib manager w1 = (Inr staged, w2)"
      and "patch cwd options (config staged) = (Some e, cfg)"
  shows "main lib sys_argv cwd (Some argv) w = (Inl (Raised e), w2)"
  using assms by (simp add: main_def)

lemma parsed_threads:
  assumes "delegated_ok (sl @ sn)" and "Options sl sn = Inr p"
      and "parse_args p args = Inr options"
  shows "\<exists>n. map_of options ''threads'' = Some (PInt n) \<and>
             (supplied p args threads_argument = [] \<longrightarrow> n = 4) \<and>
             (supplied p args threads_argument \<noteq> [] \<longrightarrow>
                py_int (last (supplied p args threads_argument)) = Some n)"
proof -
  have t: "threads_argument \<in> set own_arguments" by (simp add: own_arguments_def)
  from parse_args_own[OF assms(1,2) t assms(3)] show ?thesis
    unfolding get_values_threads
    by (cases "supplied p args threads_argument = []") (auto simp: own_fields)
qed

lemma patch_raises_bcl_directory:
  assumes "delegated_ok (sl @ sn)"
      and "''bcl_directory'' \<notin> dest ` set (sl @ sn)"
      and "Options sl sn = Inr p"
      and "parse_args p args = Inr options"
  shows "patch cwd options cfg = (Some (AttributeError ''bcl_directory''), cfg)"
  using parse_args_no_bcl_directory[OF assms]
  by (simp add: patch_def assign_input_directory_def option_attribute_def)

section \<open>The claims\<close>

text \<open>
  Throughout, \<open>sl\<close> and \<open>sn\<close> (or \<open>slurm_options lib\<close> and \<open>snakemake_options lib\<close>) are the
  options of the two delegated groups, \<open>p\<close> is the parser that \<open>Options\<close> builds from them,
  \<open>argv\<close> is the argument list with the program name and \<open>args\<close> the list without it.
  \<open>main\<close> is called with \<open>Some argv\<close>; by \<open>main_sys_argv\<close> the call with \<^verbatim>\<open>args=None\<close> and
  \<^verbatim>\<open>sys.argv\<close> equal to \<open>argv\<close> is the same run.
\<close>

text \<open>
  \<^bold>\<open>C7\<close>. An argument list that the parser accepts and that omits
  \<^verbatim>\<open>--output-directory\<close> gives the options the output directory \<^verbatim>\<open>fastqc\<close>; one that
  omits \<^verbatim>\<open>--input-pattern\<close> gives the input pattern \<^verbatim>\<open>*fastq.gz\<close>; one that omits
  \<^verbatim>\<open>--threads\<close> gives the thread count 4.
\<close>

theorem options_defaults:
  assumes "delegated_ok (sl @ sn)" and "Options sl sn = Inr p"
      and "parse_args p args = Inr options"
  shows "(supplied p args outdir_argument = [] \<longrightarrow>
            map_of options ''outdir'' = Some (PStr ''fastqc'')) \<and>
         (supplied p args input_pattern_argument = [] \<longrightarrow>
            map_of options ''input_pattern'' = Some (PStr ''*fastq.gz'')) \<and>
         (supplied p args threads_argument = [] \<longrightarrow>
            map_of options ''threads'' = Some (PInt 4))"
proof -
  have o: "outdir_argument \<in> set own_arguments" and i: "input_pattern_argument \<in> set own_arguments"
    and t: "threads_argument \<in> set own_arguments" by (simp_all add: own_arguments_def)
  from parse_args_own[OF assms(1,2) o assms(3)] parse_args_own[OF assms(1,2) i assms(3)]
    parse_args_own[OF assms(1,2) t assms(3)]
  show ?thesis
    by (simp add: own_fields)
qed

theorem options_defaults_witness:
  "delegated_ok (example_slurm @ example_snakemake) \<and>
   Options example_slurm example_snakemake = Inr example_parser \<and>
   parse_args example_parser [''--fastq-directory'', ''/data/run1'', ''--run-mode'', ''local'']
     = Inr (example_options 4) \<and>
   supplied example_parser [''--fastq-directory'', ''/data/run1'', ''--run-mode'', ''local'']
     outdir_argument = [] \<and>
   supplied example_parser [''--fastq-directory'', ''/data/run1'', ''--run-mode'', ''local'']
     input_pattern_argument = [] \<and>
   supplied example_parser [''--fastq-directory'', ''/data/run1'', ''--run-mode'', ''local'']
     threads_argument = [] \<and>
   map_of (example_options 4) ''outdir'' = Some (PStr ''fastqc'') \<and>
   map_of (example_options 4) ''input_pattern'' = Some (PStr ''*fastq.gz'') \<and>
   map_of (example_options 4) ''threads'' = Some (PInt 4)"
proof -
  let ?args = "[''--fastq-directory'', ''/data/run1'', ''--run-mode'', ''local'']"
  have parse: "parse_args example_parser ?args = Inr (example_options 4)" by code_simp
  have s1: "supplied example_parser ?args outdir_argument = []" by code_simp
  have s2: "supplied example_parser ?args input_pattern_argument = []" by code_simp
  have s3: "supplied example_parser ?args threads_argument = []" by code_simp
  from options_defaults[OF example_ok example_Options parse] s1 s2 s3 example_ok example_Options parse
  show ?thesis by simp
qed

text \<open>
  \<^bold>\<open>C10\<close>. Whenever the parser ends the run other than by printing the help (a required
  option is missing, the run mode is not one of the choices, the thread count is not an
  integer, or any other parse error), the process exits through \<^verbatim>\<open>error\<close> with a usage
  message and status exactly 2, and the world is left as it was.
\<close>

theorem rejection_exit_status:
  assumes "delegated_ok (slurm_options lib @ snakemake_options lib)"
      and "Options (slurm_options lib) (snakemake_options lib) = Inr p"
      and "parse_args p (drop 1 argv) = Inl f"
      and "f \<noteq> SystemExit 0 HelpText"
  shows "\<exists>m. f = SystemExit 2 (UsageError m) \<and>
             main lib sys_argv cwd (Some argv) w = (Inl (SystemExit 2 (UsageError m)), w)"
  using parse_args_failure[OF assms(1,2,3)] main_parse_failure[OF assms(2,3)] assms(4)
  by (auto simp: parser_error_def help_exit_def)

theorem rejection_exit_status_witness:
  "delegated_ok (slurm_options (example_common example_config) @ snakemake_options (example_common example_config)) \<and>
   Options (slurm_options (example_common example_config))
     (snakemake_options (example_common example_config)) = Inr example_parser \<and>
   parse_args example_parser (drop 1 [''variant_calling'', ''--run-mode'', ''local''])
     = Inl (SystemExit 2 (UsageError (RequiredArguments [''--fastq-directory'']))) \<and>
   parse_args example_parser
       (drop 1 [''variant_calling'', ''--fastq-directory'', ''/data/run1'', ''--run-mode'', ''cloud''])
     = Inl (SystemExit 2 (UsageError (InvalidChoice ''--run-mode'' (PStr ''cloud'')))) \<and>
   parse_args example_parser
       (drop 1 [''variant_calling'', ''--fastq-directory'', ''/data/run1'', ''--run-mode'', ''local'',
                ''--threads'', ''four''])
     = Inl (SystemExit 2 (UsageError (InvalidValue ''--threads'' ''four''))) \<and>
   main (example_common example_config) [] ''/home/user''
       (Some [''variant_calling'', ''--run-mode'', ''local'']) []
     = (Inl (SystemExit 2 (UsageError (RequiredArguments [''--fastq-directory'']))), [])"
proof -
  let ?lib = "example_common example_config"
  have ok: "delegated_ok (slurm_options ?lib @ snakemake_options ?lib)"
    using example_ok by simp
  have p: "Options (slurm_options ?lib) (snakemake_options ?lib) = Inr example_parser"
    using example_Options by simp
  have a: "parse_args example_parser (drop 1 [''variant_calling'', ''--run-mode'', ''local''])
     = Inl (SystemExit 2 (UsageError (RequiredArguments [''--fastq-directory''])))"
    by code_simp
  have b: "parse_args example_parser
       (drop 1 [''variant_calling'', ''--fastq-directory'', ''/data/run1'', ''--run-mode'', ''cloud''])
     = Inl (SystemExit 2 (UsageError (InvalidChoice ''--run-mode'' (PStr ''cloud''))))"
    by code_simp
  have c: "parse_args example_parser
       (drop 1 [''variant_calling'', ''--fastq-directory'', ''/data/run1'', ''--run-mode'', ''local'',
                ''--threads'', ''four''])
     = Inl (SystemExit 2 (UsageError (InvalidValue ''--threads'' ''four'')))"
    by code_simp
  have d: "SystemExit 2 (UsageError (RequiredArguments [''--fastq-directory''])) \<noteq> SystemExit 0 HelpText"
    by simp
  from rejection_exit_status[OF ok p a d, of "[]" "''/home/user''" "[]"] ok p a b c
  show ?thesis by simp
qed

text \<open>
  \<^bold>\<open>C5\<close>, as amended. An argument list that omits \<^verbatim>\<open>--fastq-directory\<close> or omits
  \<^verbatim>\<open>--run-mode\<close> never gets past the parser and changes nothing in the world: the process
  exits with a usage error and status 2, or, when the list asks for help, with the help
  text and status 0. The claim as written (always non-zero) fails on \<^verbatim>\<open>--help\<close> alone,
  which the counterexample evaluates.
\<close>

theorem missing_required_option:
  assumes "delegated_ok (slurm_options lib @ snakemake_options lib)"
      and "Options (slurm_options lib) (snakemake_options lib) = Inr p"
      and "supplied p (drop 1 argv) fastq_directory_argument = []
           \<or> supplied p (drop 1 argv) run_mode_argument = []"
  shows "\<exists>f. parse_args p (drop 1 argv) = Inl f \<and>
             main lib sys_argv cwd (Some argv) w = (Inl f, w) \<and>
             ((\<exists>m. f = SystemExit 2 (UsageError m)) \<or>
              (f = SystemExit 0 HelpText \<and> asks_help p (drop 1 argv)))"
proof (rule parse_args_rejected[OF assms(1,2)])
  fix options
  show "parse_args p (drop 1 argv) \<noteq> Inr options"
  proof
    assume parse: "parse_args p (drop 1 argv) = Inr options"
    have f: "fastq_directory_argument \<in> set own_arguments"
      and r: "run_mode_argument \<in> set own_arguments" by (simp_all add: own_arguments_def)
    from parse_args_own[OF assms(1,2) f parse] parse_args_own[OF assms(1,2) r parse] assms(3)
    show False by (auto simp: own_fields)
  qed
qed

theorem missing_required_option_witness:
  "delegated_ok (slurm_options (example_common example_config) @ snakemake_options (example_common example_config)) \<and>
   Options (slurm_options (example_common example_config))
     (snakemake_options (example_common example_config)) = Inr example_parser \<and>
   supplied example_parser (drop 1 [''variant_calling'', ''--run-mode'', ''local''])
     fastq_directory_argument = [] \<and>
   \<not> asks_help example_parser (drop 1 [''variant_calling'', ''--run-mode'', ''local'']) \<and>
   main (example_common example_config) [] ''/home/user''
       (Some [''variant_calling'', ''--run-mode'', ''local'']) []
     = (Inl (SystemExit 2 (UsageError (RequiredArguments [''--fastq-directory'']))), [])"
proof -
  let ?lib = "example_common example_config"
  let ?argv = "[''variant_calling'', ''--run-mode'', ''local'']"
  have ok: "delegated_ok (slurm_options ?lib @ snakemake_options ?lib)"
    using example_ok by simp
  have p: "Options (slurm_options ?lib) (snakemake_options ?lib) = Inr example_parser"
    using example_Options by simp
  have s: "supplied example_parser (drop 1 ?argv) fastq_directory_argument = []" by code_simp
  have h: "\<not> asks_help example_parser (drop 1 ?argv)" by code_simp
  have a: "parse_args example_parser (drop 1 ?argv)
     = Inl (SystemExit 2 (UsageError (RequiredArguments [''--fastq-directory''])))"
    by code_simp
  from missing_required_option[OF ok p disjI1[OF s], of "[]" "''/home/user''" "[]"] ok p s h a
  show ?thesis by auto
qed

theorem missing_required_option_counterexample:
  "supplied example_parser (drop 1 [''variant_calling'', ''--help'']) fastq_directory_argument = [] \<and>
   supplied example_parser (drop 1 [''variant_calling'', ''--help'']) run_mode_argument = [] \<and>
   main (example_common example_config) [] ''/home/user'' (Some [''variant_calling'', ''--help'']) []
     = (Inl (SystemExit 0 HelpText), [])"
proof -
  have a: "parse_args example_parser (drop 1 [''variant_calling'', ''--help'']) = Inl (SystemExit 0 HelpText)"
    by code_simp
  have p: "Options (slurm_options (example_common example_config))
     (snakemake_options (example_common example_config)) = Inr example_parser"
    using example_Options by simp
  have s1: "supplied example_parser (drop 1 [''variant_calling'', ''--help'']) fastq_directory_argument = []"
    by code_simp
  have s2: "supplied example_parser (drop 1 [''variant_calling'', ''--help'']) run_mode_argument = []"
    by code_simp
  from main_parse_failure[OF p a] s1 s2 show ?thesis by simp
qed

text \<open>
  \<^bold>\<open>C2\<close>, as amended. Options that the parser returns have the run mode \<^verbatim>\<open>local\<close> or
  \<^verbatim>\<open>slurm\<close>; an argument list that gives \<^verbatim>\<open>--run-mode\<close> any other value returns no
  options and changes nothing in the world: the process exits at parse time with a usage
  error and status 2, or, when the list asks for help, with the help text and status 0.
  The claim as written (always non-zero) fails on \<^verbatim>\<open>--help --run-mode cloud\<close>, which the
  counterexample evaluates.
\<close>

theorem run_mode_choice:
  assumes "delegated_ok (slurm_options lib @ snakemake_options lib)"
      and "Options (slurm_options lib) (snakemake_options lib) = Inr p"
  shows "(parse_args p (drop 1 argv) = Inr options \<longrightarrow>
            map_of options ''run_mode'' = Some (PStr ''local'')
            \<or> map_of options ''run_mode'' = Some (PStr ''slurm'')) \<and>
         (v \<in> set (supplied p (drop 1 argv) run_mode_argument) \<and> v \<noteq> ''local'' \<and> v \<noteq> ''slurm'' \<longrightarrow>
            (\<exists>f. parse_args p (drop 1 argv) = Inl f \<and>
                 main lib sys_argv cwd (Some argv) w = (Inl f, w) \<and>
                 ((\<exists>m. f = SystemExit 2 (UsageError m)) \<or>
                  (f = SystemExit 0 HelpText \<and> asks_help p (drop 1 argv)))))"
proof (intro conjI impI)
  have r: "run_mode_argument \<in> set own_arguments" by (simp add: own_arguments_def)
  {
    assume parse: "parse_args p (drop 1 argv) = Inr options"
    from parse_args_own[OF assms r parse]
    show "map_of options ''run_mode'' = Some (PStr ''local'')
          \<or> map_of options ''run_mode'' = Some (PStr ''slurm'')"
      unfolding get_values_run_mode
      by (cases "supplied p (drop 1 argv) run_mode_argument = []") (auto simp: own_fields)
  }
  {
    assume v: "v \<in> set (supplied p (drop 1 argv) run_mode_argument) \<and> v \<noteq> ''local'' \<and> v \<noteq> ''slurm''"
    show "\<exists>f. parse_args p (drop 1 argv) = Inl f \<and>
                 main lib sys_argv cwd (Some argv) w = (Inl f, w) \<and>
                 ((\<exists>m. f = SystemExit 2 (UsageError m)) \<or>
                  (f = SystemExit 0 HelpText \<and> asks_help p (drop 1 argv)))"
    proof (rule parse_args_rejected[OF assms])
      fix options'
      show "parse_args p (drop 1 argv) \<noteq> Inr options'"
      proof
        assume "parse_args p (drop 1 argv) = Inr options'"
        from parse_args_own[OF assms r this] v show False
          unfolding get_values_run_mode by blast
      qed
    qed
  }
qed

theorem run_mode_choice_witness:
  "delegated_ok (slurm_options (example_common example_config) @ snakemake_options (example_common example_config)) \<and>
   Options (slurm_options (example_common example_config))
     (snakemake_options (example_common example_config)) = Inr example_parser \<and>
   parse_args example_parser
       (drop 1 [''variant_calling'', ''--fastq-directory'', ''/data/run1'', ''--run-mode'', ''local''])
     = Inr (example_options 4) \<and>
   map_of (example_options 4) ''run_mode'' = Some (PStr ''local'') \<and>
   ''cloud'' \<in> set (supplied example_parser
       (drop 1 [''variant_calling'', ''--fastq-directory'', ''/data/run1'', ''--run-mode'', ''cloud''])
       run_mode_argument) \<and>
   main (example_common example_config) [] ''/home/user''
       (Some [''variant_calling'', ''--fastq-directory'', ''/data/run1'', ''--run-mode'', ''cloud'']) []
     = (Inl (SystemExit 2 (UsageError (InvalidChoice ''--run-mode'' (PStr ''cloud'')))), [])"
proof -
  let ?lib = "example_common example_config"
  let ?good = "[''variant_calling'', ''--fastq-directory'', ''/data/run1'', ''--run-mode'', ''local'']"
  let ?bad = "[''variant_calling'', ''--fastq-directory'', ''/data/run1'', ''--run-mode'', ''cloud'']"
  have ok: "delegated_ok (slurm_options ?lib @ snakemake_options ?lib)"
    using example_ok by simp
  have p: "Options (slurm_options ?lib) (snakemake_options ?lib) = Inr example_parser"
    using example_Options by simp
  have good: "parse_args example_parser (drop 1 ?good) = Inr (example_options 4)" by code_simp
  have bad: "parse_args example_parser (drop 1 ?bad)
     = Inl (SystemExit 2 (UsageError (InvalidChoice ''--run-mode'' (PStr ''cloud''))))" by code_simp
  have s: "''cloud'' \<in> set (supplied example_parser (drop 1 ?bad) run_mode_argument)" by code_simp
  have m: "map_of (example_options 4) ''run_mode'' = Some (PStr ''local'')"
    by (simp add: example_options_def)
  from run_mode_choice[OF ok p, of ?good "example_options 4" "''cloud''" "[]" "''/home/user''" "[]"]
    run_mode_choice[OF ok p, of ?bad "example_options 4" "''cloud''" "[]" "''/home/user''" "[]"]
    ok p good bad s m
  show ?thesis by auto
qed

theorem run_mode_choice_counterexample:
  "supplied example_parser
       (drop 1 [''variant_calling'', ''--help'', ''--run-mode'', ''cloud'']) run_mode_argument
     = [''cloud''] \<and>
   main (example_common example_config) [] ''/home/user''
       (Some [''variant_calling'', ''--help'', ''--run-mode'', ''cloud'']) []
     = (Inl (SystemExit 0 HelpText), [])"
proof -
  let ?argv = "[''variant_calling'', ''--help'', ''--run-mode'', ''cloud'']"
  have a: "parse_args example_parser (drop 1 ?argv) = Inl (SystemExit 0 HelpText)"
    by code_simp
  have p: "Options (slurm_options (example_common example_config))
     (snakemake_options (example_common example_config)) = Inr example_parser"
    using example_Options by simp
  have s: "supplied example_parser (drop 1 ?argv) run_mode_argument = [''cloud'']"
    by code_simp
  from main_parse_failure[OF p a] s show ?thesis by simp
qed

text \<open>
  \<^bold>\<open>C8\<close>, as amended. Options that the parser returns have an integer thread count: 4
  when \<^verbatim>\<open>--threads\<close> is omitted, otherwise \<^verbatim>\<open>int\<close> of the last value given; a value that
  \<^verbatim>\<open>int\<close> does not accept is rejected at parse time like a bad run mode. Nothing checks
  the sign: the counterexample evaluates \<^verbatim>\<open>--threads 0\<close> and \<^verbatim>\<open>--threads=-3\<close>, which are
  accepted, and the run with \<^verbatim>\<open>--threads 0\<close> gets past setup to the patch step.
\<close>

theorem threads_integer:
  assumes "delegated_ok (slurm_options lib @ snakemake_options lib)"
      and "Options (slurm_options lib) (snakemake_options lib) = Inr p"
  shows "(parse_args p (drop 1 argv) = Inr options \<longrightarrow>
            (\<exists>n. map_of options ''threads'' = Some (PInt n) \<and>
                 (supplied p (drop 1 argv) threads_argument = [] \<longrightarrow> n = 4) \<and>
                 (supplied p (drop 1 argv) threads_argument \<noteq> [] \<longrightarrow>
                    py_int (last (supplied p (drop 1 argv) threads_argument)) = Some n))) \<and>
         (v \<in> set (supplied p (drop 1 argv) threads_argument) \<and> py_int v = None \<longrightarrow>
            (\<exists>f. parse_args p (drop 1 argv) = Inl f \<and>
                 main lib sys_argv cwd (Some argv) w = (Inl f, w) \<and>
                 ((\<exists>m. f = SystemExit 2 (UsageError m)) \<or>
                  (f = SystemExit 0 HelpText \<and> asks_help p (drop 1 argv)))))"
proof (intro conjI impI)
  have t: "threads_argument \<in> set own_arguments" by (simp add: own_arguments_def)
  {
    assume parse: "parse_args p (drop 1 argv) = Inr options"
    from parse_args_own[OF assms t parse]
    show "\<exists>n. map_of options ''threads'' = Some (PInt n) \<and>
                 (supplied p (drop 1 argv) threads_argument = [] \<longrightarrow> n = 4) \<and>
                 (supplied p (drop 1 argv) threads_argument \<noteq> [] \<longrightarrow>
                    py_int (last (supplied p (drop 1 argv) threads_argument)) = Some n)"
      unfolding get_values_threads
      by (cases "supplied p (drop 1 argv) threads_argument = []") (auto simp: own_fields)
  }
  {
    assume v: "v \<in> set (supplied p (drop 1 argv) threads_argument) \<and> py_int v = None"
    show "\<exists>f. parse_args p (drop 1 argv) = Inl f \<and>
                 main lib sys_argv cwd (Some argv) w = (Inl f, w) \<and>
                 ((\<exists>m. f = SystemExit 2 (UsageError m)) \<or>
                  (f = SystemExit 0 HelpText \<and> asks_help p (drop 1 argv)))"
    proof (rule parse_args_rejected[OF assms])
      fix options'
      show "parse_args p (drop 1 argv) \<noteq> Inr options'"
      proof
        assume "parse_args p (drop 1 argv) = Inr options'"
        from parse_args_own[OF assms t this] v show False
          unfolding get_values_threads by force
      qed
    qed
  }
qed

theorem threads_integer_witness:
  "delegated_ok (slurm_options (example_common example_config) @ snakemake_options (example_common example_config)) \<and>
   Options (slurm_options (example_common example_config))
     (snakemake_options (example_common example_config)) = Inr example_parser \<and>
   parse_args example_parser
       (drop 1 [''variant_calling'', ''--fastq-directory'', ''/data/run1'', ''--run-mode'', ''local'',
                ''--threads'', ''8''])
     = Inr (example_options 8) \<and>
   py_int ''8'' = Some 8 \<and>
   map_of (example_options 8) ''threads'' = Some (PInt 8) \<and>
   ''3.0'' \<in> set (supplied example_parser
       (drop 1 [''variant_calling'', ''--fastq-directory'', ''/data/run1'', ''--run-mode'', ''local'',
                ''--threads'', ''3.0'']) threads_argument) \<and>
   py_int ''3.0'' = None \<and>
   main (example_common example_config) [] ''/home/user''
       (Some [''variant_calling'', ''--fastq-directory'', ''/data/run1'', ''--run-mode'', ''local'',
              ''--threads'', ''3.0'']) []
     = (Inl (SystemExit 2 (UsageError (InvalidValue ''--threads'' ''3.0''))), [])"
proof -
  let ?lib = "example_common example_config"
  let ?good = "[''variant_calling'', ''--fastq-directory'', ''/data/run1'', ''--run-mode'', ''local'',
                ''--threads'', ''8'']"
  let ?bad = "[''variant_calling'', ''--fastq-directory'', ''/data/run1'', ''--run-mode'', ''local'',
                ''--threads'', ''3.0'']"
  have ok: "delegated_ok (slurm_options ?lib @ snakemake_options ?lib)"
    using example_ok by simp
  have p: "Options (slurm_options ?lib) (snakemake_options ?lib) = Inr example_parser"
    using example_Options by simp
  have good: "parse_args example_parser (drop 1 ?good) = Inr (example_options 8)" by code_simp
  have bad: "parse_args example_parser (drop 1 ?bad)
     = Inl (SystemExit 2 (UsageError (InvalidValue ''--threads'' ''3.0'')))" by code_simp
  have s: "''3.0'' \<in> set (supplied example_parser (drop 1 ?bad) threads_argument)" by code_simp
  have i8: "py_int ''8'' = Some 8" by code_simp
  have i3: "py_int ''3.0'' = None" by code_simp
  have m: "map_of (example_options 8) ''threads'' = Some (PInt 8)"
    by (simp add: example_options_def)
  from threads_integer[OF ok p, of ?good "example_options 8" "''3.0''" "[]" "''/home/user''" "[]"]
    threads_integer[OF ok p, of ?bad "example_options 8" "''3.0''" "[]" "''/home/user''" "[]"]
    ok p good bad s i8 i3 m
  show ?thesis by auto
qed

theorem threads_positive_counterexample:
  "parse_args example_parser
       (drop 1 [''variant_calling'', ''--fastq-directory'', ''/data/run1'', ''--run-mode'', ''local'',
                ''--threads'', ''0''])
     = Inr (example_options 0) \<and>
   map_of (example_options 0) ''threads'' = Some (PInt 0) \<and>
   parse_args example_parser
       (drop 1 [''variant_calling'', ''--fastq-directory'', ''/data/run1'', ''--run-mode'', ''local'',
                ''--threads=-3''])
     = Inr (example_options (- 3)) \<and>
   main (example_common example_config) [] ''/home/user''
       (Some [''variant_calling'', ''--fastq-directory'', ''/data/run1'', ''--run-mode'', ''local'',
              ''--threads'', ''0'']) []
     = (Inl (Raised (AttributeError ''bcl_directory'')), [''variant_calling/''])"
proof -
  have a: "parse_args example_parser
       (drop 1 [''variant_calling'', ''--fastq-directory'', ''/data/run1'', ''--run-mode'', ''local'',
                ''--threads'', ''0''])
     = Inr (example_options 0)" by code_simp
  have b: "parse_args example_parser
       (drop 1 [''variant_calling'', ''--fastq-directory'', ''/data/run1'', ''--run-mode'', ''local'',
                ''--threads=-3''])
     = Inr (example_options (- 3))" by code_simp
  have c: "main (example_common example_config) [] ''/home/user''
       (Some [''variant_calling'', ''--fastq-directory'', ''/data/run1'', ''--run-mode'', ''local'',
              ''--threads'', ''0'']) []
     = (Inl (Raised (AttributeError ''bcl_directory'')), [''variant_calling/''])" by code_simp
  from a b c show ?thesis by (simp add: example_options_def)
qed

text \<open>
  \<^bold>\<open>C1\<close>. The claim is that the patch step sets \<^verbatim>\<open>input_directory\<close> to the absolute path
  of the \<^verbatim>\<open>--fastq-directory\<close> value. Line 90 reads \<^verbatim>\<open>options.bcl_directory\<close> instead, and
  line 61 stores the value under \<^verbatim>\<open>fastq_directory\<close>. So, unless a delegated group
  defines an attribute \<^verbatim>\<open>bcl_directory\<close>, every run that gets past the parser and the
  setup ends at line 90 with \<^verbatim>\<open>AttributeError\<close>: the configuration is left as staged, and
  teardown is not run. The theorem states what the code does.
\<close>

theorem input_directory_not_patched:
  assumes "delegated_ok (slurm_options lib @ snakemake_options lib)"
      and "''bcl_directory'' \<notin> dest ` set (slurm_options lib @ snakemake_options lib)"
      and "Options (slurm_options lib) (snakemake_options lib) = Inr p"
      and "parse_args p (drop 1 argv) = Inr options"
      and "PipelineManager lib options NAME w = (Inr manager, w1)"
      and "manager_setup lib manager w1 = (Inr staged, w2)"
  shows "option_attribute options ''bcl_directory'' = Inl (AttributeError ''bcl_directory'') \<and>
         patch cwd options (config staged) = (Some (AttributeError ''bcl_directory''), config staged) \<and>
         main lib sys_argv cwd (Some argv) w = (Inl (Raised (AttributeError ''bcl_directory'')), w2)"
proof -
  from parse_args_no_bcl_directory[OF assms(1,2,3,4)]
  have a: "option_attribute options ''bcl_directory'' = Inl (AttributeError ''bcl_directory'')"
    by (simp add: option_attribute_def)
  then have b: "patch cwd options (config staged)
                  = (Some (AttributeError ''bcl_directory''), config staged)"
    by (simp add: patch_def assign_input_directory_def)
  from a b main_patch_raises[OF assms(3,4,5,6) b] show ?thesis by simp
qed

theorem input_directory_not_patched_witness:
  "delegated_ok (slurm_options (example_common example_config) @ snakemake_options (example_common example_config)) \<and>
   ''bcl_directory'' \<notin> dest ` set (slurm_options (example_common example_config)
                                          @ snakemake_options (example_common example_config)) \<and>
   Options (slurm_options (example_common example_config))
     (snakemake_options (example_common example_config)) = Inr example_parser \<and>
   parse_args example_parser
       (drop 1 [''variant_calling'', ''--fastq-directory'', ''/data/run1'', ''--threads'', ''8'',
                ''--run-mode'', ''local''])
     = Inr (example_options 8) \<and>
   map_of (example_options 8) ''fastq_directory'' = Some (PStr ''/data/run1'') \<and>
   abspath ''/home/user'' (PStr ''/data/run1'') = Inr ''/data/run1'' \<and>
   main (example_common example_config) [] ''/home/user''
       (Some [''variant_calling'', ''--fastq-directory'', ''/data/run1'', ''--threads'', ''8'',
              ''--run-mode'', ''local'']) []
     = (Inl (Raised (AttributeError ''bcl_directory'')), [''variant_calling/''])"
proof -
  let ?lib = "example_common example_config"
  let ?argv = "[''variant_calling'', ''--fastq-directory'', ''/data/run1'', ''--threads'', ''8'',
                ''--run-mode'', ''local'']"
  have ok: "delegated_ok (slurm_options ?lib @ snakemake_options ?lib)"
    using example_ok by simp
  have no: "''bcl_directory'' \<notin> dest ` set (slurm_options ?lib @ snakemake_options ?lib)"
    by (simp add: example_slurm_def example_snakemake_def)
  have p: "Options (slurm_options ?lib) (snakemake_options ?lib) = Inr example_parser"
    using example_Options by simp
  have parse: "parse_args example_parser (drop 1 ?argv) = Inr (example_options 8)" by code_simp
  have m: "PipelineManager ?lib (example_options 8) NAME []
             = (Inr \<lparr>config = example_config, internals = ()\<rparr>, [])"
    by (simp add: example_common_def)
  have s: "manager_setup ?lib \<lparr>config = example_config, internals = ()\<rparr> []
             = (Inr \<lparr>config = example_config, internals = ()\<rparr>, [''variant_calling/''])"
    by (simp add: example_common_def)
  have f: "map_of (example_options 8) ''fastq_directory'' = Some (PStr ''/data/run1'')"
    by (simp add: example_options_def)
  have ab: "abspath ''/home/user'' (PStr ''/data/run1'') = Inr ''/data/run1''" by code_simp
  from input_directory_not_patched[OF ok no p parse m s, of "''/home/user''" "[]"] ok no p parse f ab
  show ?thesis by simp
qed

text \<open>
  \<^bold>\<open>C3\<close>. The claim is that the patch step sets \<^verbatim>\<open>bcl2fastq.threads\<close> to the thread count
  of the options. The options do hold that count (\<^verbatim>\<open>int\<close> of the last \<^verbatim>\<open>--threads\<close> value,
  4 when the flag is omitted), but the assignment of line 91 is never reached: unless a
  delegated group defines an attribute \<^verbatim>\<open>bcl_directory\<close>, line 90 raises first, in every
  run that gets past the parser and the setup. The field keeps the value it was staged with
  and \<open>main\<close> fails before teardown. This is the defect of C1; the theorem states what the
  code does.
\<close>

theorem threads_not_patched:
  assumes "delegated_ok (slurm_options lib @ snakemake_options lib)"
      and "''bcl_directory'' \<notin> dest ` set (slurm_options lib @ snakemake_options lib)"
      and "Options (slurm_options lib) (snakemake_options lib) = Inr p"
      and "parse_args p (drop 1 argv) = Inr options"
      and "PipelineManager lib options NAME w = (Inr manager, w1)"
      and "manager_setup lib manager w1 = (Inr staged, w2)"
  shows "(\<exists>n. map_of options ''threads'' = Some (PInt n) \<and>
              (supplied p (drop 1 argv) threads_argument = [] \<longrightarrow> n = 4) \<and>
              (supplied p (drop 1 argv) threads_argument \<noteq> [] \<longrightarrow>
                 py_int (last (supplied p (drop 1 argv) threads_argument)) = Some n)) \<and>
         field (Section (snd (patch cwd options (config staged)))) [''bcl2fastq'', ''threads'']
           = field (Section (config staged)) [''bcl2fastq'', ''threads''] \<and>
         main lib sys_argv cwd (Some argv) w
           = (Inl (Raised (AttributeError ''bcl_directory'')), w2)"
proof -
  note b = patch_raises_bcl_directory[OF assms(1,2,3,4), of cwd "config staged"]
  from parsed_threads[OF assms(1,3,4)] b main_patch_raises[OF assms(3,4,5,6) b]
  show ?thesis by simp
qed

theorem threads_not_patched_witness:
  "delegated_ok (slurm_options (example_common example_config)
                 @ snakemake_options (example_common example_config)) \<and>
   ''bcl_directory'' \<notin> dest ` set (slurm_options (example_common example_config)
                                          @ snakemake_options (example_common example_config)) \<and>
   Options (slurm_options (example_common example_config))
     (snakemake_options (example_common example_config)) = Inr example_parser \<and>
   parse_args example_parser
       (drop 1 [''variant_calling'', ''--fastq-directory'', ''/data/run1'', ''--threads'', ''8'',
                ''--run-mode'', ''local''])
     = Inr (example_options 8) \<and>
   map_of (example_options 8) ''threads'' = Some (PInt 8) \<and>
   field (Section (snd (patch ''/home/user'' (example_options 8) example_config)))
       [''bcl2fastq'', ''threads'']
     = Some (Value (PInt 4)) \<and>
   main (example_common example_config) [] ''/home/user''
       (Some [''variant_calling'', ''--fastq-directory'', ''/data/run1'', ''--threads'', ''8'',
              ''--run-mode'', ''local'']) []
     = (Inl (Raised (AttributeError ''bcl_directory'')), [''variant_calling/''])"
proof -
  let ?lib = "example_common example_config"
  let ?argv = "[''variant_calling'', ''--fastq-directory'', ''/data/run1'', ''--threads'', ''8'',
                ''--run-mode'', ''local'']"
  have ok: "delegated_ok (slurm_options ?lib @ snakemake_options ?lib)"
    using example_ok by simp
  have no: "''bcl_directory'' \<notin> dest ` set (slurm_options ?lib @ snakemake_options ?lib)"
    by (simp add: example_slurm_def example_snakemake_def)
  have p: "Options (slurm_options ?lib) (snakemake_options ?lib) = Inr example_parser"
    using example_Options by simp
  have parse: "parse_args example_parser (drop 1 ?argv) = Inr (example_options 8)" by code_simp
  have m: "PipelineManager ?lib (example_options 8) NAME []
             = (Inr \<lparr>config = example_config, internals = ()\<rparr>, [])"
    by (simp add: example_common_def)
  have s: "manager_setup ?lib \<lparr>config = example_config, internals = ()\<rparr> []
             = (Inr \<lparr>config = example_config, internals = ()\<rparr>, [''variant_calling/''])"
    by (simp add: example_common_def)
  have t: "map_of (example_options 8) ''threads'' = Some (PInt 8)"
    by (simp add: example_options_def)
  have f: "field (Section example_config) [''bcl2fastq'', ''threads''] = Some (Value (PInt 4))"
    by code_simp
  from threads_not_patched[OF ok no p parse m s, of "''/home/user''" "[]"] ok no p parse t f
  show ?thesis by simp
qed

text \<open>
  \<^bold>\<open>C4\<close>. Each assignment of the patch step, and the step as a whole, however it ends,
  leaves every field of the configuration as it was, except \<^verbatim>\<open>input_directory\<close> (and what
  is below it) and \<^verbatim>\<open>bcl2fastq.threads\<close> (and the objects that contain it). \<open>main\<close> hands
  the configuration to teardown as the patch step leaves it.
\<close>

theorem patch_frame:
  assumes "\<not> prefix [''input_directory''] path"
      and "\<not> prefix [''bcl2fastq'', ''threads''] path"
      and "\<not> prefix path [''bcl2fastq'', ''threads'']"
  shows "field (Section (snd (assign_input_directory cwd options cfg))) path = field (Section cfg) path \<and>
         field (Section (snd (assign_threads options cfg))) path = field (Section cfg) path \<and>
         field (Section (snd (patch cwd options cfg))) path = field (Section cfg) path"
proof -
  from assms(3) have ne: "path \<noteq> []" by auto
  note a = assign_input_directory_frame[OF assms(1) ne]
  note b = assign_threads_frame[OF assms(2,3)]
  from patch_cases[of cwd options cfg] a b show ?thesis by auto
qed

theorem patch_frame_witness:
  "\<not> prefix [''input_directory''] [''bcl2fastq'', ''options''] \<and>
   \<not> prefix [''bcl2fastq'', ''threads''] [''bcl2fastq'', ''options''] \<and>
   \<not> prefix [''bcl2fastq'', ''options''] [''bcl2fastq'', ''threads''] \<and>
   field (Section example_config) [''bcl2fastq'', ''options''] = Some (Value (PStr [])) \<and>
   field (Section (snd (assign_threads (example_options 8) example_config)))
       [''bcl2fastq'', ''options'']
     = Some (Value (PStr [])) \<and>
   field (Section (snd (assign_threads (example_options 8) example_config)))
       [''bcl2fastq'', ''threads'']
     = Some (Value (PInt 8)) \<and>
   field (Section (snd (patch ''/home/user'' (example_options 8) example_config)))
       [''bcl2fastq'', ''options'']
     = Some (Value (PStr []))"
proof -
  let ?path = "[''bcl2fastq'', ''options'']"
  have h1: "\<not> prefix [''input_directory''] ?path" by simp
  have h2: "\<not> prefix [''bcl2fastq'', ''threads''] ?path" by simp
  have h3: "\<not> prefix ?path [''bcl2fastq'', ''threads'']" by simp
  have f0: "field (Section example_config) ?path = Some (Value (PStr []))" by code_simp
  have f1: "field (Section (snd (assign_threads (example_options 8) example_config)))
       [''bcl2fastq'', ''threads''] = Some (Value (PInt 8))" by code_simp
  from patch_frame[OF h1 h2 h3, of "''/home/user''" "example_options 8" example_config]
    h1 h2 h3 f0 f1
  show ?thesis by simp
qed




text \<open>
  \<^bold>\<open>C9\<close>. The claim is that two runs with the same argument list and working directory
  leave the same values in the two patched fields, values that the options and the working
  directory determine. Unless a delegated group defines an attribute \<^verbatim>\<open>bcl_directory\<close>,
  each of the two runs raises at line 90 and leaves its configuration as it was staged: the
  two fields hold what the two templates held, which the witness evaluates on two templates
  that differ in both fields. This is the defect of C1; the theorem states what the code
  does.
\<close>

theorem reruns_not_patched:
  assumes "delegated_ok (slurm_options lib @ snakemake_options lib)"
      and "''bcl_directory'' \<notin> dest ` set (slurm_options lib @ snakemake_options lib)"
      and "Options (slurm_options lib) (snakemake_options lib) = Inr p"
      and "parse_args p (drop 1 argv) = Inr options"
      and "PipelineManager lib options NAME w = (Inr manager, w1)"
      and "manager_setup lib manager w1 = (Inr staged, w2)"
      and "PipelineManager lib options NAME w' = (Inr manager', w1')"
      and "manager_setup lib manager' w1' = (Inr staged', w2')"
  shows "main lib sys_argv cwd (Some argv) w
           = (Inl (Raised (AttributeError ''bcl_directory'')), w2) \<and>
         main lib sys_argv cwd (Some argv) w'
           = (Inl (Raised (AttributeError ''bcl_directory'')), w2') \<and>
         snd (patch cwd options (config staged)) = config staged \<and>
         snd (patch cwd options (config staged')) = config staged'"
proof -
  note b = patch_raises_bcl_directory[OF assms(1,2,3,4), of cwd "config staged"]
  note b' = patch_raises_bcl_directory[OF assms(1,2,3,4), of cwd "config staged'"]
  from b b' main_patch_raises[OF assms(3,4,5,6) b] main_patch_raises[OF assms(3,4,7,8) b']
  show ?thesis by simp
qed

theorem reruns_not_patched_witness:
  "delegated_ok (slurm_options example_disk @ snakemake_options example_disk) \<and>
   ''bcl_directory'' \<notin> dest ` set (slurm_options example_disk @ snakemake_options example_disk) \<and>
   Options (slurm_options example_disk) (snakemake_options example_disk) = Inr example_parser \<and>
   parse_args example_parser
       (drop 1 [''variant_calling'', ''--fastq-directory'', ''/data/run1'', ''--threads'', ''8'',
                ''--run-mode'', ''local''])
     = Inr (example_options 8) \<and>
   main example_disk [] ''/home/user''
       (Some [''variant_calling'', ''--fastq-directory'', ''/data/run1'', ''--threads'', ''8'',
              ''--run-mode'', ''local'']) (example_config, [])
     = (Inl (Raised (AttributeError ''bcl_directory'')), (example_config, [''variant_calling/''])) \<and>
   main example_disk [] ''/home/user''
       (Some [''variant_calling'', ''--fastq-directory'', ''/data/run1'', ''--threads'', ''8'',
              ''--run-mode'', ''local'']) (example_config_edited, [])
     = (Inl (Raised (AttributeError ''bcl_directory'')),
        (example_config_edited, [''variant_calling/''])) \<and>
   field (Section (snd (patch ''/home/user'' (example_options 8) example_config)))
       [''bcl2fastq'', ''threads''] = Some (Value (PInt 4)) \<and>
   field (Section (snd (patch ''/home/user'' (example_options 8) example_config_edited)))
       [''bcl2fastq'', ''threads''] = Some (Value (PInt 16)) \<and>
   field (Section (snd (patch ''/home/user'' (example_options 8) example_config)))
       [''input_directory''] = Some (Value (PStr [])) \<and>
   field (Section (snd (patch ''/home/user'' (example_options 8) example_config_edited)))
       [''input_directory''] = Some (Value (PStr ''/old/run0''))"
proof -
  let ?lib = "example_disk"
  let ?argv = "[''variant_calling'', ''--fastq-directory'', ''/data/run1'', ''--threads'', ''8'',
                ''--run-mode'', ''local'']"
  have g: "slurm_options ?lib = example_slurm" "snakemake_options ?lib = example_snakemake"
    by (simp_all add: example_disk_def)
  have ok: "delegated_ok (slurm_options ?lib @ snakemake_options ?lib)"
    using example_ok by (simp add: g)
  have no: "''bcl_directory'' \<notin> dest ` set (slurm_options ?lib @ snakemake_options ?lib)"
    by (simp add: g example_slurm_def example_snakemake_def)
  have p: "Options (slurm_options ?lib) (snakemake_options ?lib) = Inr example_parser"
    using example_Options by (simp add: g)
  have parse: "parse_args example_parser (drop 1 ?argv) = Inr (example_options 8)" by code_simp
  have m: "PipelineManager ?lib (example_options 8) NAME (example_config, [])
             = (Inr \<lparr>config = example_config, internals = ()\<rparr>, (example_config, []))"
    by (simp add: example_disk_def)
  have s: "manager_setup ?lib \<lparr>config = example_config, internals = ()\<rparr> (example_config, [])
             = (Inr \<lparr>config = example_config, internals = ()\<rparr>,
                (example_config, [''variant_calling/'']))"
    by (simp add: example_disk_def)
  have m': "PipelineManager ?lib (example_options 8) NAME (example_config_edited, [])
             = (Inr \<lparr>config = example_config_edited, internals = ()\<rparr>, (example_config_edited, []))"
    by (simp add: example_disk_def)
  have s': "manager_setup ?lib \<lparr>config = example_config_edited, internals = ()\<rparr>
               (example_config_edited, [])
             = (Inr \<lparr>config = example_config_edited, internals = ()\<rparr>,
                (example_config_edited, [''variant_calling/'']))"
    by (simp add: example_disk_def)
  have f1: "field (Section example_config) [''bcl2fastq'', ''threads''] = Some (Value (PInt 4))"
    by code_simp
  have f2: "field (Section example_config_edited) [''bcl2fastq'', ''threads''] = Some (Value (PInt 16))"
    by code_simp
  have f3: "field (Section example_config) [''input_directory''] = Some (Value (PStr []))"
    by code_simp
  have f4: "field (Section example_config_edited) [''input_directory'']
              = Some (Value (PStr ''/old/run0''))"
    by code_simp
  from reruns_not_patched[OF ok no p parse m s m' s', of "[]" "''/home/user''"]
    ok no p parse f1 f2 f3 f4
  show ?thesis by simp
qed

end
